theory Spec2Isabelle
  imports Complex_Main
begin

section \<open>The SDF descent of \<^verbatim>\<open>scripts/sdf_descent.py\<close>\<close>

text \<open>
  \<^verbatim>\<open>project_to_valid(robot, q, env, steps, learning_rate, noise_scale)\<close> builds eight
  noisy copies of \<open>q\<close> and moves each of them \<open>steps\<close> times along a central-difference
  gradient of the robot's signed distance function.

  Conventions of the embedding:
  \<^item> a NumPy float array is a list of \<open>float64\<close>, a two-dimensional one a list of rows;
    a \<open>float64\<close> is a real number, an infinity or NaN, and the arithmetic gives an
    infinity or NaN where IEEE 754 does; rounding inside the range of the format and the
    sign of zero are outside the model, and so is a \<open>q\<close> of integers (line 17 would raise
    on it);
  \<^item> the arrays the function allocates and mutates are fields of the record \<open>state\<close>;
    the caller's array \<open>q\<close> and NumPy's process-wide generator are fields too, so that
    writes to them would be visible;
  \<^item> \<open>robot.sdf\<close> is a parameter: it returns a distance or raises (\<open>None\<close>); every
    invocation is appended to the field \<open>trace\<close> with the line it comes from;
  \<^item> a raise is the left summand of the result and carries the state at the raise.
\<close>

subsection \<open>Numbers\<close>

text \<open>A value of NumPy's \<^verbatim>\<open>float64\<close>, which is also Python's \<^verbatim>\<open>float\<close>.\<close>

datatype float64 = Finite real | PosInf | NegInf | NaN

text \<open>The result of an operation whose exact value is \<open>x\<close>: an infinity when \<open>x\<close> is beyond
  the largest number of the format by half a unit in the last place or more.\<close>

definition overflow_bound :: real where
  "overflow_bound = 2 ^ 1024 - 2 ^ 970"

definition to_float64 :: "real \<Rightarrow> float64" where
  "to_float64 x =
     (if overflow_bound \<le> x then PosInf
      else if x \<le> - overflow_bound then NegInf
      else Finite x)"

text \<open>\<^verbatim>\<open>np.isfinite(x)\<close> and \<^verbatim>\<open>x < 0\<close>.\<close>

fun is_finite :: "float64 \<Rightarrow> bool" where
  "is_finite (Finite x) = True"
| "is_finite x = False"

fun negative :: "float64 \<Rightarrow> bool" where
  "negative (Finite x) = (x < 0)"
| "negative NegInf = True"
| "negative x = False"

text \<open>The numbers that an operation can return: within the range of the format, infinite
  or NaN.\<close>

fun in_range :: "float64 \<Rightarrow> bool" where
  "in_range (Finite x) = (\<bar>x\<bar> < overflow_bound)"
| "in_range x = True"

instantiation float64 :: "{zero, plus, uminus, minus, times, inverse}"
begin

definition zero_float64 :: float64 where
  "zero_float64 = Finite 0"

fun uminus_float64 :: "float64 \<Rightarrow> float64" where
  "- Finite x = Finite (- x)"
| "- PosInf = NegInf"
| "- NegInf = PosInf"
| "- NaN = NaN"

fun plus_float64 :: "float64 \<Rightarrow> float64 \<Rightarrow> float64" where
  "Finite x + Finite y = to_float64 (x + y)"
| "NaN + y = NaN"
| "x + NaN = NaN"
| "PosInf + NegInf = NaN"
| "NegInf + PosInf = NaN"
| "PosInf + y = PosInf"
| "x + PosInf = PosInf"
| "NegInf + y = NegInf"
| "x + NegInf = NegInf"

definition minus_float64 :: "float64 \<Rightarrow> float64 \<Rightarrow> float64" where
  "minus_float64 x y = x + (- y)"

fun times_float64 :: "float64 \<Rightarrow> float64 \<Rightarrow> float64" where
  "Finite x * Finite y = to_float64 (x * y)"
| "NaN * y = NaN"
| "x * NaN = NaN"
| "PosInf * Finite y = (if y = 0 then NaN else if y < 0 then NegInf else PosInf)"
| "NegInf * Finite y = (if y = 0 then NaN else if y < 0 then PosInf else NegInf)"
| "Finite x * PosInf = (if x = 0 then NaN else if x < 0 then NegInf else PosInf)"
| "Finite x * NegInf = (if x = 0 then NaN else if x < 0 then PosInf else NegInf)"
| "PosInf * PosInf = PosInf"
| "PosInf * NegInf = NegInf"
| "NegInf * PosInf = NegInf"
| "NegInf * NegInf = PosInf"

text \<open>A zero divisor is taken as \<open>+0\<close>; the program divides by \<open>2 * h\<close> only.\<close>

fun divide_float64 :: "float64 \<Rightarrow> float64 \<Rightarrow> float64" where
  "divide_float64 (Finite x) (Finite y) =
     (if y = 0 then (if x = 0 then NaN else if x < 0 then NegInf else PosInf)
      else to_float64 (x / y))"
| "divide_float64 NaN y = NaN"
| "divide_float64 x NaN = NaN"
| "divide_float64 (Finite x) PosInf = Finite 0"
| "divide_float64 (Finite x) NegInf = Finite 0"
| "divide_float64 PosInf (Finite y) = (if y < 0 then NegInf else PosInf)"
| "divide_float64 NegInf (Finite y) = (if y < 0 then PosInf else NegInf)"
| "divide_float64 PosInf PosInf = NaN"
| "divide_float64 PosInf NegInf = NaN"
| "divide_float64 NegInf PosInf = NaN"
| "divide_float64 NegInf NegInf = NaN"

definition inverse_float64 :: "float64 \<Rightarrow> float64" where
  "inverse_float64 x = divide (Finite 1) x"

instance ..

end

subsection \<open>Data\<close>

datatype error = OverflowError | ValueError | SdfError

text \<open>The three places of the source that invoke \<^verbatim>\<open>robot.sdf\<close>: line 23 for candidate \<open>i\<close>,
  lines 39 and 43 for candidate \<open>i\<close> and dimension \<open>d\<close>.\<close>

datatype call_site = Baseline nat | FPlus nat nat | FMinus nat nat

text \<open>A \<^verbatim>\<open>numpy.random.Generator\<close>: the seed that chose its stream and the number of
  doubles drawn from it so far.\<close>

record Generator =
  seed :: nat
  pos :: nat

record 'env robot =
  sdf :: "float64 list \<Rightarrow> 'env \<Rightarrow> float64 option"

record state =
  caller_q :: "float64 list"
  np_random :: Generator
  candidates :: "float64 list list"
  dists :: "float64 list"
  grads :: "float64 list list"
  trace :: "(call_site \<times> float64 list) list"

type_synonym outcome = "(error \<times> state) + state"

subsection \<open>NumPy operations used by the source\<close>

definition default_rng :: "nat \<Rightarrow> Generator" where
  "default_rng s = \<lparr>seed = s, pos = 0\<rparr>"

text \<open>\<^verbatim>\<open>rng.uniform(low, high, (n, m))\<close> raises when \<open>high - low\<close> is not finite or is
  negative; otherwise it draws \<open>n * m\<close> doubles \<open>u\<close> of the unit interval in row-major order
  and returns \<open>low + (high - low) * u\<close>. The stream of the bit generator is the parameter
  \<open>pcg64\<close>: \<open>pcg64 s k\<close> is the \<open>k\<close>-th double of the generator seeded with \<open>s\<close>.\<close>

fun uniform ::
  "(nat \<Rightarrow> nat \<Rightarrow> real) \<Rightarrow> Generator \<Rightarrow> float64 \<Rightarrow> float64 \<Rightarrow> nat \<times> nat
     \<Rightarrow> error + (float64 list list \<times> Generator)" where
  "uniform pcg64 rng low high (n, m) =
     (if \<not> is_finite (high - low) then Inl OverflowError
      else if negative (high - low) then Inl ValueError
      else Inr (map (\<lambda>i. map (\<lambda>d. low + (high - low) * Finite (pcg64 (seed rng) (pos rng + i * m + d)))
                            [0..<m]) [0..<n],
                rng\<lparr>pos := pos rng + n * m\<rparr>))"

text \<open>\<^verbatim>\<open>np.tile(q, (n, 1))\<close>: a new array of \<open>n\<close> rows, each a copy of \<open>q\<close>.\<close>

definition tile :: "float64 list \<Rightarrow> nat \<Rightarrow> float64 list list" where
  "tile q n = replicate n q"

definition zeros_like :: "float64 list list \<Rightarrow> float64 list list" where
  "zeros_like a = map (map (\<lambda>_. 0)) a"

subsection \<open>Loops\<close>

text \<open>\<^verbatim>\<open>for i in xs: body\<close>, where the body may raise: the first raise ends the loop.\<close>

fun for_each :: "nat list \<Rightarrow> (nat \<Rightarrow> 's \<Rightarrow> 'e + 's) \<Rightarrow> 's \<Rightarrow> 'e + 's" where
  "for_each [] body st = Inr st"
| "for_each (i # is) body st =
     (case body i st of Inl e \<Rightarrow> Inl e | Inr st' \<Rightarrow> for_each is body st')"

subsection \<open>The function \<^verbatim>\<open>project_to_valid\<close>\<close>

definition n_candidates :: nat where
  "n_candidates = 8"

definition h :: float64 where
  "h = Finite (1 / 10000)"

text \<open>Lines 12 to 17: the candidate pool before the first step.\<close>

definition init_candidates :: "(nat \<Rightarrow> nat \<Rightarrow> real) \<Rightarrow> float64 \<Rightarrow> state \<Rightarrow> outcome" where
  "init_candidates pcg64 noise_scale st =
     (let dimn = length (caller_q st);
          rng = default_rng 42;
          st1 = st\<lparr>candidates := tile (caller_q st) n_candidates\<rparr>
      in case uniform pcg64 rng (- noise_scale) noise_scale (n_candidates, dimn) of
           Inl e \<Rightarrow> Inl (e, st1)
         | Inr (noise, rng') \<Rightarrow>
             Inr (st1\<lparr>candidates := map2 (map2 (+)) (candidates st1) noise\<rparr>))"

text \<open>\<^verbatim>\<open>robot.sdf(candidates[i], env)\<close>: the row is a view, the oracle sees what the row
  holds at the time of the call.\<close>

definition call_sdf ::
  "'env robot \<Rightarrow> 'env \<Rightarrow> call_site \<Rightarrow> nat \<Rightarrow> state \<Rightarrow> (error \<times> state) + (float64 \<times> state)" where
  "call_sdf robot env site i st =
     (let c = candidates st ! i;
          st' = st\<lparr>trace := trace st @ [(site, c)]\<rparr>
      in case sdf robot c env of
           None \<Rightarrow> Inl (SdfError, st')
         | Some v \<Rightarrow> Inr (v, st'))"

text \<open>Lines 21 to 23.\<close>

definition compute_sdfs :: "'env robot \<Rightarrow> 'env \<Rightarrow> state \<Rightarrow> outcome" where
  "compute_sdfs robot env st =
     for_each [0..<n_candidates]
       (\<lambda>i s. case call_sdf robot env (Baseline i) i s of
                 Inl x \<Rightarrow> Inl x
               | Inr (v, s') \<Rightarrow> Inr (s'\<lparr>dists := (dists s')[i := v]\<rparr>))
       (st\<lparr>dists := replicate n_candidates 0\<rparr>)"

text \<open>\<^verbatim>\<open>candidates[i, d] = v\<close> and \<^verbatim>\<open>grads[i, d] = v\<close>. The indices the loops produce are
  within the arrays (see \<open>shape\<close> below), so NumPy's IndexError has no branch.\<close>

definition set_candidate :: "nat \<Rightarrow> nat \<Rightarrow> float64 \<Rightarrow> state \<Rightarrow> state" where
  "set_candidate i d v st = st\<lparr>candidates := (candidates st)[i := (candidates st ! i)[d := v]]\<rparr>"

definition set_grad :: "nat \<Rightarrow> nat \<Rightarrow> float64 \<Rightarrow> state \<Rightarrow> state" where
  "set_grad i d v st = st\<lparr>grads := (grads st)[i := (grads st ! i)[d := v]]\<rparr>"

text \<open>Lines 35 to 48: the body of \<^verbatim>\<open>for d in range(dim)\<close>.\<close>

definition gradient_dim ::
  "'env robot \<Rightarrow> 'env \<Rightarrow> nat \<Rightarrow> float64 list \<Rightarrow> nat \<Rightarrow> state \<Rightarrow> outcome" where
  "gradient_dim robot env i original_q d st =
     (let val = original_q ! d in
      case call_sdf robot env (FPlus i d) i (set_candidate i d (val + h) st) of
        Inl x \<Rightarrow> Inl x
      | Inr (f_plus, st1) \<Rightarrow>
          (case call_sdf robot env (FMinus i d) i (set_candidate i d (val - h) st1) of
             Inl x \<Rightarrow> Inl x
           | Inr (f_minus, st2) \<Rightarrow>
               Inr (set_grad i d ((f_plus - f_minus) / (Finite 2 * h)) (set_candidate i d val st2))))"

text \<open>Lines 33 to 48: the body of the second \<^verbatim>\<open>for i in range(n_candidates)\<close>.\<close>

definition gradient_candidate :: "'env robot \<Rightarrow> 'env \<Rightarrow> nat \<Rightarrow> nat \<Rightarrow> state \<Rightarrow> outcome" where
  "gradient_candidate robot env dimn i st =
     (let original_q = candidates st ! i
      in for_each [0..<dimn] (gradient_dim robot env i original_q) st)"

text \<open>Lines 28 to 48.\<close>

definition compute_gradients :: "'env robot \<Rightarrow> 'env \<Rightarrow> nat \<Rightarrow> state \<Rightarrow> outcome" where
  "compute_gradients robot env dimn st =
     for_each [0..<n_candidates] (gradient_candidate robot env dimn)
       (st\<lparr>grads := zeros_like (candidates st)\<rparr>)"

text \<open>Lines 52 and 53: \<^verbatim>\<open>candidates[i] += grads[i] * learning_rate\<close>.\<close>

definition update_rule :: "float64 \<Rightarrow> state \<Rightarrow> outcome" where
  "update_rule learning_rate st =
     for_each [0..<n_candidates]
       (\<lambda>i s. Inr (s\<lparr>candidates := (candidates s)
                 [i := map2 (+) (candidates s ! i) (map (\<lambda>g. g * learning_rate) (grads s ! i))]\<rparr>))
       st"

text \<open>Lines 20 to 53: the body of \<^verbatim>\<open>for step in range(steps)\<close>.\<close>

definition step_body :: "'env robot \<Rightarrow> 'env \<Rightarrow> nat \<Rightarrow> float64 \<Rightarrow> state \<Rightarrow> outcome" where
  "step_body robot env dimn learning_rate st =
     (case compute_sdfs robot env st of
        Inl x \<Rightarrow> Inl x
      | Inr st1 \<Rightarrow>
          (case compute_gradients robot env dimn st1 of
             Inl x \<Rightarrow> Inl x
           | Inr st2 \<Rightarrow> update_rule learning_rate st2))"

text \<open>The state at the call: the caller's \<open>q\<close>, the process-wide generator \<open>g\<close>, no local
  array yet and an empty trace.\<close>

definition entry :: "float64 list \<Rightarrow> Generator \<Rightarrow> state" where
  "entry q g = \<lparr>caller_q = q, np_random = g, candidates = [], dists = [], grads = [], trace = []\<rparr>"

text \<open>The whole function. The array it returns is the field \<open>candidates\<close> of the final
  state. \<^verbatim>\<open>range(steps)\<close> is empty for \<open>steps \<le> 0\<close>.\<close>

definition project_to_valid ::
  "(nat \<Rightarrow> nat \<Rightarrow> real) \<Rightarrow> 'env robot \<Rightarrow> float64 list \<Rightarrow> 'env \<Rightarrow> int \<Rightarrow> float64 \<Rightarrow> float64
     \<Rightarrow> Generator \<Rightarrow> outcome" where
  "project_to_valid pcg64 robot q env steps learning_rate noise_scale g =
     (let dimn = length q in
      case init_candidates pcg64 noise_scale (entry q g) of
        Inl x \<Rightarrow> Inl x
      | Inr st \<Rightarrow>
          for_each [0..<nat steps] (\<lambda>step. step_body robot env dimn learning_rate) st)"

text \<open>What a caller observes of a call: the state in which it ended (by return or by
  raise) and the array it returned, if it returned.\<close>

definition outcome_state :: "outcome \<Rightarrow> state" where
  "outcome_state r = (case r of Inl (e, st) \<Rightarrow> st | Inr st \<Rightarrow> st)"

definition returned :: "outcome \<Rightarrow> float64 list list option" where
  "returned r = (case r of Inl x \<Rightarrow> None | Inr st \<Rightarrow> Some (candidates st))"

text \<open>The same program with lines 21 to 23 (the baseline distances) removed.\<close>

definition step_body_no_baseline :: "'env robot \<Rightarrow> 'env \<Rightarrow> nat \<Rightarrow> float64 \<Rightarrow> state \<Rightarrow> outcome" where
  "step_body_no_baseline robot env dimn learning_rate st =
     (case compute_gradients robot env dimn st of
        Inl x \<Rightarrow> Inl x
      | Inr st2 \<Rightarrow> update_rule learning_rate st2)"

definition project_to_valid_no_baseline ::
  "(nat \<Rightarrow> nat \<Rightarrow> real) \<Rightarrow> 'env robot \<Rightarrow> float64 list \<Rightarrow> 'env \<Rightarrow> int \<Rightarrow> float64 \<Rightarrow> float64
     \<Rightarrow> Generator \<Rightarrow> outcome" where
  "project_to_valid_no_baseline pcg64 robot q env steps learning_rate noise_scale g =
     (let dimn = length q in
      case init_candidates pcg64 noise_scale (entry q g) of
        Inl x \<Rightarrow> Inl x
      | Inr st \<Rightarrow>
          for_each [0..<nat steps] (\<lambda>step. step_body_no_baseline robot env dimn learning_rate) st)"

subsection \<open>The components as the specification words them\<close>

text \<open>Candidate Pool Initializer: \<open>K\<close> configurations \<open>q + noise\<^sub>i\<close>, the noise drawn from
  \<open>[-s, s]\<close> in every dimension with the generator seeded per call.\<close>

definition noisy_copies :: "(nat \<Rightarrow> nat \<Rightarrow> real) \<Rightarrow> float64 list \<Rightarrow> float64 \<Rightarrow> float64 list list" where
  "noisy_copies pcg64 q s =
     map (\<lambda>i. map (\<lambda>d. q ! d + (- s + (s - (- s)) * Finite (pcg64 42 (i * length q + d)))) [0..<length q])
       [0..<8]"

text \<open>Gradient Estimator: \<open>g[d] = (sdf(c with c[d]+h) - sdf(c with c[d]-h)) / (2h)\<close>, computed
  on the configuration \<open>c\<close> without changing it.\<close>

definition central_difference :: "(float64 list \<Rightarrow> float64) \<Rightarrow> float64 list \<Rightarrow> float64 list" where
  "central_difference f c =
     map (\<lambda>d. (f (c[d := c ! d + h]) - f (c[d := c ! d - h])) / (Finite 2 * h)) [0..<length c]"

text \<open>Ascent Updater: \<open>candidate \<leftarrow> candidate + learning_rate * g\<close>, elementwise.\<close>

definition ascent :: "float64 \<Rightarrow> float64 list \<Rightarrow> float64 list \<Rightarrow> float64 list" where
  "ascent learning_rate c g = map (\<lambda>d. c ! d + learning_rate * g ! d) [0..<length c]"

text \<open>One synchronous step: all gradients are computed from the snapshot of the pool, then
  all candidates are updated.\<close>

definition reference_step :: "(float64 list \<Rightarrow> float64) \<Rightarrow> float64 \<Rightarrow> float64 list list \<Rightarrow> float64 list list" where
  "reference_step f learning_rate pool =
     (let snapshot = pool;
          gs = map (central_difference f) snapshot
      in map (\<lambda>i. ascent learning_rate (snapshot ! i) (gs ! i)) [0..<length snapshot])"

fun reference_steps ::
  "(float64 list \<Rightarrow> float64) \<Rightarrow> float64 \<Rightarrow> nat \<Rightarrow> float64 list list \<Rightarrow> float64 list list" where
  "reference_steps f learning_rate 0 pool = pool"
| "reference_steps f learning_rate (Suc n) pool =
     reference_steps f learning_rate n (reference_step f learning_rate pool)"

text \<open>The oracle invocations of one step, in order: the baseline of every candidate, then
  for every candidate and every dimension the probe above and the probe below.\<close>

definition probe_calls :: "nat \<Rightarrow> float64 list \<Rightarrow> (call_site \<times> float64 list) list" where
  "probe_calls i c =
     concat (map (\<lambda>d. [(FPlus i d, c[d := c ! d + h]), (FMinus i d, c[d := c ! d - h])])
       [0..<length c])"

definition step_calls :: "float64 list list \<Rightarrow> (call_site \<times> float64 list) list" where
  "step_calls pool =
     map (\<lambda>i. (Baseline i, pool ! i)) [0..<n_candidates]
     @ concat (map (\<lambda>i. probe_calls i (pool ! i)) [0..<n_candidates])"

definition step_sites :: "nat \<Rightarrow> call_site list" where
  "step_sites dimn =
     map Baseline [0..<n_candidates]
     @ concat (map (\<lambda>i. concat (map (\<lambda>d. [FPlus i d, FMinus i d]) [0..<dimn])) [0..<n_candidates])"

text \<open>The shape of the pool: \<open>K\<close> rows of \<open>D\<close> numbers each.\<close>

definition shape :: "nat \<Rightarrow> state \<Rightarrow> bool" where
  "shape dimn st \<longleftrightarrow>
     length (candidates st) = n_candidates \<and> list_all (\<lambda>c. length c = dimn) (candidates st)"

text \<open>Modelled from the spec: the robot collaborator is not part of the sources. The
  specification gives it an expected dimension \<open>D\<close> and lets its \<open>sdf\<close> fail on a
  configuration of another length; on a configuration of length \<open>D\<close> it is a pure function.\<close>

definition dimension_checked :: "nat \<Rightarrow> (float64 list \<Rightarrow> 'env \<Rightarrow> float64) \<Rightarrow> 'env robot" where
  "dimension_checked D f = \<lparr>sdf = \<lambda>c env. if length c = D then Some (f c env) else None\<rparr>"

text \<open>The gradients left in \<open>grads\<close> after \<open>n\<close> steps: those of the last step.\<close>

definition last_grads :: "(float64 list \<Rightarrow> float64) \<Rightarrow> float64 \<Rightarrow> nat \<Rightarrow> state \<Rightarrow> float64 list list" where
  "last_grads f learning_rate n st =
     (case n of 0 \<Rightarrow> grads st
      | Suc k \<Rightarrow> map (central_difference f) (reference_steps f learning_rate k (candidates st)))"


text \<open>The shape of \<open>grads\<close> after line 28.\<close>

definition grads_shape :: "nat \<Rightarrow> state \<Rightarrow> bool" where
  "grads_shape dimn st \<longleftrightarrow>
     length (grads st) = n_candidates \<and> list_all (\<lambda>r. length r = dimn) (grads st)"

text \<open>What holds of the state at every point of a call with the array \<open>q\<close> and the
  process-wide generator \<open>g\<close>: both are what they were, the pool has its shape, and every
  configuration shown to the oracle had the length of \<open>q\<close>.\<close>

definition run_invariant :: "float64 list \<Rightarrow> Generator \<Rightarrow> state \<Rightarrow> bool" where
  "run_invariant q g st \<longleftrightarrow>
     caller_q st = q \<and> np_random st = g \<and> shape (length q) st
     \<and> list_all (\<lambda>(site, c). length c = length q) (trace st)"

text \<open>A call ends by a raise in a state with \<open>Q\<close> or by a return in a state with \<open>P\<close>.\<close>

definition ends :: "(state \<Rightarrow> bool) \<Rightarrow> (state \<Rightarrow> bool) \<Rightarrow> outcome \<Rightarrow> bool" where
  "ends Q P r = (case r of Inl (e, st) \<Rightarrow> Q st | Inr st \<Rightarrow> P st)"

text \<open>The same state under another process-wide generator.\<close>

definition with_np_random :: "Generator \<Rightarrow> state \<Rightarrow> state" where
  "with_np_random g st = st\<lparr>np_random := g\<rparr>"

definition map_outcome :: "(state \<Rightarrow> state) \<Rightarrow> outcome \<Rightarrow> outcome" where
  "map_outcome u r = (case r of Inl (e, st) \<Rightarrow> Inl (e, u st) | Inr st \<Rightarrow> Inr (u st))"

text \<open>The state without what the baseline phase writes: \<open>dists\<close> and the trace.\<close>

definition erase :: "state \<Rightarrow> state" where
  "erase st = st\<lparr>dists := [], trace := []\<rparr>"

text \<open>The noise scales that \<^verbatim>\<open>rng.uniform(-noise_scale, noise_scale, ...)\<close> accepts, and the
  error it raises on another one.\<close>

definition noise_accepted :: "float64 \<Rightarrow> bool" where
  "noise_accepted s \<longleftrightarrow> is_finite (s - (- s)) \<and> \<not> negative (s - (- s))"

definition noise_error :: "float64 \<Rightarrow> error" where
  "noise_error s = (if \<not> is_finite (s - (- s)) then OverflowError else ValueError)"

text \<open>Concrete inputs for the examples: a stream of doubles that are all one half, and a
  distance that is zero everywhere.\<close>

definition half_stream :: "nat \<Rightarrow> nat \<Rightarrow> real" where
  "half_stream s k = 1 / 2"

definition zero_sdf :: "float64 list \<Rightarrow> unit \<Rightarrow> float64" where
  "zero_sdf c e = 0"


text \<open>Every central-difference gradient of every candidate of the pool is finite.\<close>

definition finite_gradients :: "(float64 list \<Rightarrow> float64) \<Rightarrow> float64 list list \<Rightarrow> bool" where
  "finite_gradients f pool \<longleftrightarrow> list_all (\<lambda>c. list_all is_finite (central_difference f c)) pool"

text \<open>Two robots for the examples: the distance is the first coordinate, or it is
  infinite everywhere.\<close>

definition coordinate_robot :: "unit robot" where
  "coordinate_robot = \<lparr>sdf = \<lambda>c e. Some (c ! 0)\<rparr>"

definition inf_robot :: "unit robot" where
  "inf_robot = \<lparr>sdf = \<lambda>c e. Some PosInf\<rparr>"

section \<open>Arithmetic of \<open>float64\<close>\<close>

lemma overflow_bound_large: "1000000 < overflow_bound"
  by (simp add: overflow_bound_def)

lemma to_float64_small: "\<bar>x\<bar> \<le> 1000000 \<Longrightarrow> to_float64 x = Finite x"
  using overflow_bound_large by (auto simp: to_float64_def)

lemma in_range_to_float64: "in_range (to_float64 x)"
  by (auto simp: to_float64_def)

lemma in_range_plus: "in_range (a + b)"
  by (cases a; cases b) (simp_all add: in_range_to_float64)

lemma plus_zero: "in_range c \<Longrightarrow> c + 0 = c"
  by (cases c) (auto simp: zero_float64_def to_float64_def)

lemma zero_times_finite: "is_finite g \<Longrightarrow> 0 * g = 0"
  using overflow_bound_large by (cases g) (auto simp: zero_float64_def to_float64_def)

lemma zero_times_not_finite: "\<not> is_finite g \<Longrightarrow> 0 * g = NaN"
  by (cases g) (auto simp: zero_float64_def)

lemma float64_times_commute: "(a :: float64) * b = b * a"
  by (cases a; cases b) (simp_all add: mult.commute)

section \<open>Rules for the loops\<close>

lemma for_each_append:
  "for_each (xs @ ys) body st =
     (case for_each xs body st of Inl e \<Rightarrow> Inl e | Inr st' \<Rightarrow> for_each ys body st')"
  by (induction xs arbitrary: st) (auto split: sum.splits)

text \<open>A counting loop whose body never raises under the invariant \<open>I\<close> returns, and
  the invariant holds at the bound.\<close>

lemma for_each_upt_rule:
  assumes step: "\<And>k s. k < n \<Longrightarrow> I k s \<Longrightarrow> \<exists>s'. body k s = Inr s' \<and> I (Suc k) s'"
    and init: "I 0 st"
  shows "\<exists>s'. for_each [0..<n] body st = Inr s' \<and> I n s'"
  using step
proof (induction n)
  case 0
  with init show ?case by simp
next
  case (Suc n)
  from Suc obtain s1 where s1: "for_each [0..<n] body st = Inr s1" "I n s1"
    by (metis less_Suc_eq)
  from Suc.prems [of n s1] s1 obtain s2 where "body n s1 = Inr s2" "I (Suc n) s2"
    by auto
  with s1 show ?case
    by (simp add: for_each_append)
qed

section \<open>The candidate pool before the first step\<close>

lemma entry_sel [simp]:
  "caller_q (entry q g) = q" "np_random (entry q g) = g" "candidates (entry q g) = []"
  "dists (entry q g) = []" "grads (entry q g) = []" "trace (entry q g) = []"
  by (simp_all add: entry_def)

lemma map2_rows:
  "map2 (map2 (+)) (replicate n q) (map (\<lambda>i. map (N i) [0..<length q]) [0..<n]) =
     map (\<lambda>i. map (\<lambda>d. q ! d + N i d) [0..<length q]) [0..<n]"
  by (auto intro!: nth_equalityI)

lemma init_candidates_entry:
  "init_candidates pcg64 s (entry q g) =
     (if noise_accepted s then Inr ((entry q g)\<lparr>candidates := noisy_copies pcg64 q s\<rparr>)
      else Inl (noise_error s, (entry q g)\<lparr>candidates := tile q n_candidates\<rparr>))"
  by (simp add: init_candidates_def Let_def default_rng_def entry_def noisy_copies_def tile_def
      n_candidates_def map2_rows noise_accepted_def noise_error_def)

section \<open>The run with an oracle that never raises\<close>

lemma call_sdf_total:
  assumes "\<And>c. sdf robot c env = Some (f c)"
  shows "call_sdf robot env site i st =
    Inr (f (candidates st ! i), st\<lparr>trace := trace st @ [(site, candidates st ! i)]\<rparr>)"
  by (simp add: call_sdf_def Let_def assms)

lemma gradient_dim_total:
  assumes tot: "\<And>c. sdf robot c env = Some (f c)"
    and i: "i < length (candidates st)"
    and c: "c = candidates st ! i"
  shows "\<exists>s'. gradient_dim robot env i c d st = Inr s'
     \<and> candidates s' = candidates st
     \<and> grads s' = (grads st)[i := (grads st ! i)
          [d := (f (c[d := c ! d + h]) - f (c[d := c ! d - h])) / (Finite 2 * h)]]
     \<and> trace s' = trace st @ [(FPlus i d, c[d := c ! d + h]), (FMinus i d, c[d := c ! d - h])]"
  using i c
  by (simp add: gradient_dim_def Let_def call_sdf_total [OF tot] set_candidate_def set_grad_def)

lemma gradient_candidate_total:
  assumes tot: "\<And>c. sdf robot c env = Some (f c)"
    and i: "i < length (candidates st)" "i < length (grads st)"
    and len: "length (candidates st ! i) = dimn" "length (grads st ! i) = dimn"
  shows "\<exists>s'. gradient_candidate robot env dimn i st = Inr s'
     \<and> candidates s' = candidates st
     \<and> grads s' = (grads st)[i := central_difference f (candidates st ! i)]
     \<and> trace s' = trace st @ probe_calls i (candidates st ! i)"
proof -
  define c where "c = candidates st ! i"
  define gd where "gd = (\<lambda>d. (f (c[d := c ! d + h]) - f (c[d := c ! d - h])) / (Finite 2 * h))"
  define pc where "pc = (\<lambda>d. [(FPlus i d, c[d := c ! d + h]), (FMinus i d, c[d := c ! d - h])])"
  define I where "I = (\<lambda>k (s::state). candidates s = candidates st
      \<and> grads s = (grads st)[i := map gd [0..<k] @ drop k (grads st ! i)]
      \<and> trace s = trace st @ concat (map pc [0..<k]))"
  have "\<exists>s'. for_each [0..<dimn] (gradient_dim robot env i c) st = Inr s' \<and> I dimn s'"
  proof (rule for_each_upt_rule)
    show "I 0 st" by (simp add: I_def)
  next
    fix k s assume k: "k < dimn" and inv: "I k s"
    from inv i have ilen: "i < length (candidates s)" and cs: "c = candidates s ! i"
      by (simp_all add: I_def c_def)
    from gradient_dim_total [OF tot ilen cs, of k] obtain s' where
      s': "gradient_dim robot env i c k s = Inr s'" "candidates s' = candidates s"
        "grads s' = (grads s)[i := (grads s ! i)[k := gd k]]"
        "trace s' = trace s @ pc k"
      by (auto simp: gd_def pc_def)
    have "(map gd [0..<k] @ drop k (grads st ! i))[k := gd k]
        = map gd [0..<Suc k] @ drop (Suc k) (grads st ! i)"
      using k len by (simp add: list_update_append upd_conv_take_nth_drop)
    with s' inv i have "I (Suc k) s'"
      by (simp add: I_def)
    with s' show "\<exists>s'. gradient_dim robot env i c k s = Inr s' \<and> I (Suc k) s'"
      by blast
  qed
  then show ?thesis
    using len by (simp add: gradient_candidate_def I_def c_def central_difference_def
        probe_calls_def gd_def pc_def)
qed

lemma shape_nth: "shape dimn st \<Longrightarrow> i < n_candidates \<Longrightarrow> length (candidates st ! i) = dimn"
  by (simp add: shape_def list_all_length)

lemma shape_length: "shape dimn st \<Longrightarrow> length (candidates st) = n_candidates"
  by (simp add: shape_def)

lemma compute_gradients_total:
  assumes tot: "\<And>c. sdf robot c env = Some (f c)"
    and sh: "shape dimn st"
  shows "\<exists>s'. compute_gradients robot env dimn st = Inr s'
     \<and> candidates s' = candidates st
     \<and> grads s' = map (central_difference f) (candidates st)
     \<and> trace s' = trace st @ concat (map (\<lambda>i. probe_calls i (candidates st ! i)) [0..<n_candidates])"
proof -
  define C where "C = candidates st"
  define Z where "Z = zeros_like C"
  define I where "I = (\<lambda>k (s::state). candidates s = C
      \<and> grads s = map (central_difference f) (take k C) @ drop k Z
      \<and> trace s = trace st @ concat (map (\<lambda>i. probe_calls i (C ! i)) [0..<k]))"
  have lenC: "length C = n_candidates" and lenZ: "length Z = n_candidates"
    using sh by (simp_all add: C_def Z_def zeros_like_def shape_def)
  have rowC: "\<And>i. i < n_candidates \<Longrightarrow> length (C ! i) = dimn"
    using sh by (simp add: C_def shape_nth)
  have rowZ: "\<And>i. i < n_candidates \<Longrightarrow> length (Z ! i) = dimn"
    using lenC rowC by (simp add: Z_def zeros_like_def)
  have "\<exists>s'. for_each [0..<n_candidates] (gradient_candidate robot env dimn)
          (st\<lparr>grads := Z\<rparr>) = Inr s' \<and> I n_candidates s'"
  proof (rule for_each_upt_rule)
    show "I 0 (st\<lparr>grads := Z\<rparr>)" by (simp add: I_def C_def)
  next
    fix k s assume k: "k < n_candidates" and inv: "I k s"
    have gk: "grads s ! k = Z ! k"
      using inv k lenC lenZ by (simp add: I_def nth_append)
    have "\<exists>s'. gradient_candidate robot env dimn k s = Inr s'
       \<and> candidates s' = candidates s
       \<and> grads s' = (grads s)[k := central_difference f (candidates s ! k)]
       \<and> trace s' = trace s @ probe_calls k (candidates s ! k)"
      using inv k lenC lenZ rowC [OF k] rowZ [OF k] gk
      by (intro gradient_candidate_total [OF tot]) (simp_all add: I_def)
    then obtain s' where s': "gradient_candidate robot env dimn k s = Inr s'"
      "candidates s' = candidates s"
      "grads s' = (grads s)[k := central_difference f (candidates s ! k)]"
      "trace s' = trace s @ probe_calls k (candidates s ! k)"
      by blast
    have "(map (central_difference f) (take k C) @ drop k Z)[k := central_difference f (C ! k)]
        = map (central_difference f) (take (Suc k) C) @ drop (Suc k) Z"
      using k lenC lenZ
      by (simp add: list_update_append take_Suc_conv_app_nth upd_conv_take_nth_drop)
    with s' inv have "I (Suc k) s'"
      by (simp add: I_def)
    with s' show "\<exists>s'. gradient_candidate robot env dimn k s = Inr s' \<and> I (Suc k) s'"
      by blast
  qed
  then show ?thesis
    using lenC lenZ by (simp add: compute_gradients_def I_def C_def Z_def)
qed

lemma compute_sdfs_total:
  assumes tot: "\<And>c. sdf robot c env = Some (f c)"
  shows "\<exists>s'. compute_sdfs robot env st = Inr s'
     \<and> candidates s' = candidates st
     \<and> trace s' = trace st @ map (\<lambda>i. (Baseline i, candidates st ! i)) [0..<n_candidates]"
proof -
  define I where "I = (\<lambda>k (s::state). candidates s = candidates st
      \<and> trace s = trace st @ map (\<lambda>i. (Baseline i, candidates st ! i)) [0..<k])"
  have "\<exists>s'. for_each [0..<n_candidates]
       (\<lambda>i s. case call_sdf robot env (Baseline i) i s of
                 Inl x \<Rightarrow> Inl x
               | Inr (v, s') \<Rightarrow> Inr (s'\<lparr>dists := (dists s')[i := v]\<rparr>))
       (st\<lparr>dists := replicate n_candidates 0\<rparr>) = Inr s' \<and> I n_candidates s'"
    by (rule for_each_upt_rule) (simp_all add: I_def call_sdf_total [OF tot])
  then show ?thesis
    by (simp add: compute_sdfs_def I_def)
qed

lemma update_rule_total:
  assumes len: "length (candidates st) = n_candidates"
  shows "\<exists>s'. update_rule learning_rate st = Inr s'
     \<and> candidates s' = map (\<lambda>i. map2 (+) (candidates st ! i)
           (map (\<lambda>g. g * learning_rate) (grads st ! i))) [0..<n_candidates]
     \<and> grads s' = grads st
     \<and> trace s' = trace st"
proof -
  define C where "C = candidates st"
  define U where "U = (\<lambda>i. map2 (+) (C ! i) (map (\<lambda>g. g * learning_rate) (grads st ! i)))"
  define I where "I = (\<lambda>k (s::state). candidates s = map U [0..<k] @ drop k C
      \<and> grads s = grads st \<and> trace s = trace st)"
  have "\<exists>s'. for_each [0..<n_candidates]
       (\<lambda>i s. Inr (s\<lparr>candidates := (candidates s)
                 [i := map2 (+) (candidates s ! i) (map (\<lambda>g. g * learning_rate) (grads s ! i))]\<rparr>))
       st = Inr s' \<and> I n_candidates s'"
  proof (rule for_each_upt_rule)
    show "I 0 st" by (simp add: I_def C_def)
  next
    fix k s assume k: "k < n_candidates" and inv: "I k s"
    have ck: "candidates s ! k = C ! k"
      using inv k len by (simp add: I_def C_def nth_append)
    have "(map U [0..<k] @ drop k C)[k := U k] = map U [0..<Suc k] @ drop (Suc k) C"
      using k len by (simp add: C_def list_update_append upd_conv_take_nth_drop)
    with inv ck have "I (Suc k) (s\<lparr>candidates := (candidates s)
        [k := map2 (+) (candidates s ! k) (map (\<lambda>g. g * learning_rate) (grads s ! k))]\<rparr>)"
      by (simp add: I_def U_def)
    then show "\<exists>s'. Inr (s\<lparr>candidates := (candidates s)
        [k := map2 (+) (candidates s ! k) (map (\<lambda>g. g * learning_rate) (grads s ! k))]\<rparr>)
          = Inr s' \<and> I (Suc k) s'"
      by blast
  qed
  then show ?thesis
    using len by (simp add: update_rule_def I_def C_def U_def)
qed

lemma map2_ascent:
  "length g = length c \<Longrightarrow> map2 (+) c (map (\<lambda>x. x * learning_rate) g) = ascent learning_rate c g"
  by (auto simp: ascent_def float64_times_commute intro!: nth_equalityI)

lemma length_central_difference [simp]: "length (central_difference f c) = length c"
  by (simp add: central_difference_def)

lemma update_is_reference_step:
  "length C = n_candidates \<Longrightarrow>
   map (\<lambda>i. map2 (+) (C ! i) (map (\<lambda>g. g * learning_rate) (map (central_difference f) C ! i)))
     [0..<n_candidates] = reference_step f learning_rate C"
  by (simp add: reference_step_def map2_ascent)

lemma shape_reference_step:
  assumes "length C = n_candidates" "list_all (\<lambda>c. length c = dimn) C"
  shows "length (reference_step f learning_rate C) = n_candidates"
    and "list_all (\<lambda>c. length c = dimn) (reference_step f learning_rate C)"
  using assms by (simp_all add: reference_step_def list_all_length ascent_def)

lemma map_fst_probe_calls:
  "map fst (probe_calls i c) = concat (map (\<lambda>d. [FPlus i d, FMinus i d]) [0..<length c])"
  by (simp add: probe_calls_def map_concat comp_def)

lemma map_fst_step_calls:
  assumes "length C = n_candidates" "list_all (\<lambda>c. length c = dimn) C"
  shows "map fst (step_calls C) = step_sites dimn"
proof -
  have eq: "map (\<lambda>i. map fst (probe_calls i (C ! i))) [0..<n_candidates] =
      map (\<lambda>i. concat (map (\<lambda>d. [FPlus i d, FMinus i d]) [0..<dimn])) [0..<n_candidates]"
    using assms by (intro map_cong) (simp_all add: map_fst_probe_calls list_all_length)
  show ?thesis
    by (simp add: step_calls_def step_sites_def map_concat comp_def eq)
qed

lemma concat_replicate_snoc:
  "concat (replicate k xs) @ xs = xs @ concat (replicate k xs)"
  by (induction k) simp_all

lemma step_body_total:
  assumes tot: "\<And>c. sdf robot c env = Some (f c)"
    and sh: "shape dimn st"
  shows "\<exists>s'. step_body robot env dimn learning_rate st = Inr s'
     \<and> candidates s' = reference_step f learning_rate (candidates st)
     \<and> grads s' = map (central_difference f) (candidates st)
     \<and> trace s' = trace st @ step_calls (candidates st)
     \<and> shape dimn s'"
proof -
  from compute_sdfs_total [OF tot, of st] obtain s1 where
    s1: "compute_sdfs robot env st = Inr s1" "candidates s1 = candidates st"
      "trace s1 = trace st @ map (\<lambda>i. (Baseline i, candidates st ! i)) [0..<n_candidates]"
    by blast
  from sh s1 have sh1: "shape dimn s1" by (simp add: shape_def)
  from compute_gradients_total [OF tot sh1] obtain s2 where
    s2: "compute_gradients robot env dimn s1 = Inr s2" "candidates s2 = candidates s1"
      "grads s2 = map (central_difference f) (candidates s1)"
      "trace s2 = trace s1 @ concat (map (\<lambda>i. probe_calls i (candidates s1 ! i)) [0..<n_candidates])"
    by blast
  have len: "length (candidates st) = n_candidates"
    using sh by (simp add: shape_def)
  with s1 s2 have len2: "length (candidates s2) = n_candidates" by simp
  from update_rule_total [OF len2, of learning_rate] obtain s3 where
    s3: "update_rule learning_rate s2 = Inr s3"
      "candidates s3 = map (\<lambda>i. map2 (+) (candidates s2 ! i)
           (map (\<lambda>g. g * learning_rate) (grads s2 ! i))) [0..<n_candidates]"
      "grads s3 = grads s2" "trace s3 = trace s2"
    by blast
  have c3: "candidates s3 = reference_step f learning_rate (candidates st)"
    using s3 s2 s1 len by (simp add: update_is_reference_step)
  have "shape dimn s3"
    using sh c3 shape_reference_step [of "candidates st" dimn f learning_rate]
    by (simp add: shape_def)
  with s1 s2 s3 c3 show ?thesis
    by (simp add: step_body_def step_calls_def)
qed

lemma step_body_no_baseline_total:
  assumes tot: "\<And>c. sdf robot c env = Some (f c)"
    and sh: "shape dimn st"
  shows "\<exists>s'. step_body_no_baseline robot env dimn learning_rate st = Inr s'
     \<and> candidates s' = reference_step f learning_rate (candidates st)
     \<and> grads s' = map (central_difference f) (candidates st)
     \<and> shape dimn s'"
proof -
  from compute_gradients_total [OF tot sh] obtain s2 where
    s2: "compute_gradients robot env dimn st = Inr s2" "candidates s2 = candidates st"
      "grads s2 = map (central_difference f) (candidates st)"
    by blast
  have len: "length (candidates st) = n_candidates"
    using sh by (simp add: shape_def)
  with s2 have len2: "length (candidates s2) = n_candidates" by simp
  from update_rule_total [OF len2, of learning_rate] obtain s3 where
    s3: "update_rule learning_rate s2 = Inr s3"
      "candidates s3 = map (\<lambda>i. map2 (+) (candidates s2 ! i)
           (map (\<lambda>g. g * learning_rate) (grads s2 ! i))) [0..<n_candidates]"
      "grads s3 = grads s2" "trace s3 = trace s2"
    by blast
  have c3: "candidates s3 = reference_step f learning_rate (candidates st)"
    using s3 s2 len by (simp add: update_is_reference_step)
  have "shape dimn s3"
    using sh c3 shape_reference_step [of "candidates st" dimn f learning_rate]
    by (simp add: shape_def)
  with s2 s3 c3 show ?thesis
    by (simp add: step_body_no_baseline_def)
qed

lemma reference_steps_Suc:
  "reference_steps f learning_rate (Suc n) pool =
     reference_step f learning_rate (reference_steps f learning_rate n pool)"
  by (induction n arbitrary: pool) simp_all

lemma steps_total:
  assumes tot: "\<And>c. sdf robot c env = Some (f c)"
    and sh: "shape dimn st"
  shows "\<exists>s'. for_each [0..<n] (\<lambda>step. step_body robot env dimn learning_rate) st = Inr s'
     \<and> candidates s' = reference_steps f learning_rate n (candidates st)
     \<and> grads s' = last_grads f learning_rate n st
     \<and> map fst (trace s') = map fst (trace st) @ concat (replicate n (step_sites dimn))
     \<and> shape dimn s'"
proof -
  define I where "I = (\<lambda>k (s::state).
       candidates s = reference_steps f learning_rate k (candidates st)
     \<and> grads s = last_grads f learning_rate k st
     \<and> map fst (trace s) = map fst (trace st) @ concat (replicate k (step_sites dimn))
     \<and> shape dimn s)"
  have "\<exists>s'. for_each [0..<n] (\<lambda>step. step_body robot env dimn learning_rate) st = Inr s' \<and> I n s'"
  proof (rule for_each_upt_rule)
    show "I 0 st" using sh by (simp add: I_def last_grads_def)
  next
    fix k s assume inv: "I k s"
    then have shs: "shape dimn s" by (simp add: I_def)
    from step_body_total [OF tot shs, of learning_rate] obtain s' where
      s': "step_body robot env dimn learning_rate s = Inr s'"
        "candidates s' = reference_step f learning_rate (candidates s)"
        "grads s' = map (central_difference f) (candidates s)"
        "trace s' = trace s @ step_calls (candidates s)" "shape dimn s'"
      by blast
    have "map fst (step_calls (candidates s)) = step_sites dimn"
      using shs by (intro map_fst_step_calls) (simp_all add: shape_def)
    with s' inv have "I (Suc k) s'"
      by (simp add: I_def last_grads_def reference_steps_Suc concat_replicate_snoc
          del: reference_steps.simps)
    with s' show "\<exists>s'. step_body robot env dimn learning_rate s = Inr s' \<and> I (Suc k) s'"
      by blast
  qed
  then show ?thesis by (simp add: I_def)
qed

lemma steps_no_baseline_total:
  assumes tot: "\<And>c. sdf robot c env = Some (f c)"
    and sh: "shape dimn st"
  shows "\<exists>s'. for_each [0..<n] (\<lambda>step. step_body_no_baseline robot env dimn learning_rate) st = Inr s'
     \<and> candidates s' = reference_steps f learning_rate n (candidates st)
     \<and> grads s' = last_grads f learning_rate n st"
proof -
  define I where "I = (\<lambda>k (s::state).
       candidates s = reference_steps f learning_rate k (candidates st)
     \<and> grads s = last_grads f learning_rate k st
     \<and> shape dimn s)"
  have "\<exists>s'. for_each [0..<n] (\<lambda>step. step_body_no_baseline robot env dimn learning_rate) st = Inr s'
      \<and> I n s'"
  proof (rule for_each_upt_rule)
    show "I 0 st" using sh by (simp add: I_def last_grads_def)
  next
    fix k s assume inv: "I k s"
    then have shs: "shape dimn s" by (simp add: I_def)
    from step_body_no_baseline_total [OF tot shs, of learning_rate] obtain s' where
      s': "step_body_no_baseline robot env dimn learning_rate s = Inr s'"
        "candidates s' = reference_step f learning_rate (candidates s)"
        "grads s' = map (central_difference f) (candidates s)" "shape dimn s'"
      by blast
    with inv have "I (Suc k) s'"
      by (simp add: I_def last_grads_def reference_steps_Suc del: reference_steps.simps)
    with s' show "\<exists>s'. step_body_no_baseline robot env dimn learning_rate s = Inr s' \<and> I (Suc k) s'"
      by blast
  qed
  then show ?thesis by (auto simp: I_def)
qed

lemma shape_noisy_copies:
  "shape (length q) ((entry q g)\<lparr>candidates := noisy_copies pcg64 q s\<rparr>)"
  by (simp add: shape_def noisy_copies_def n_candidates_def list_all_length)

lemma project_to_valid_total:
  assumes tot: "\<And>c. sdf robot c env = Some (f c)"
    and ns: "noise_accepted noise_scale"
  shows "\<exists>s'. project_to_valid pcg64 robot q env steps learning_rate noise_scale g = Inr s'
     \<and> candidates s' = reference_steps f learning_rate (nat steps) (noisy_copies pcg64 q noise_scale)
     \<and> grads s' = last_grads f learning_rate (nat steps)
          ((entry q g)\<lparr>candidates := noisy_copies pcg64 q noise_scale\<rparr>)
     \<and> map fst (trace s') = concat (replicate (nat steps) (step_sites (length q)))"
  using steps_total [OF tot shape_noisy_copies [where q = q and g = g and ?pcg64.0 = pcg64 and s = noise_scale],
      where n = "nat steps" and learning_rate = learning_rate] ns
  by (auto simp: project_to_valid_def init_candidates_entry)

lemma project_to_valid_no_baseline_total:
  assumes tot: "\<And>c. sdf robot c env = Some (f c)"
    and ns: "noise_accepted noise_scale"
  shows "\<exists>s'. project_to_valid_no_baseline pcg64 robot q env steps learning_rate noise_scale g = Inr s'
     \<and> candidates s' = reference_steps f learning_rate (nat steps) (noisy_copies pcg64 q noise_scale)
     \<and> grads s' = last_grads f learning_rate (nat steps)
          ((entry q g)\<lparr>candidates := noisy_copies pcg64 q noise_scale\<rparr>)"
  using steps_no_baseline_total [OF tot shape_noisy_copies [where q = q and g = g and ?pcg64.0 = pcg64 and s = noise_scale],
      where n = "nat steps" and learning_rate = learning_rate] ns
  by (auto simp: project_to_valid_no_baseline_def init_candidates_entry)

lemma project_to_valid_negative_noise:
  assumes "\<not> noise_accepted noise_scale"
  shows "project_to_valid pcg64 robot q env steps learning_rate noise_scale g =
      Inl (noise_error noise_scale, (entry q g)\<lparr>candidates := tile q n_candidates\<rparr>)"
    and "project_to_valid_no_baseline pcg64 robot q env steps learning_rate noise_scale g =
      Inl (noise_error noise_scale, (entry q g)\<lparr>candidates := tile q n_candidates\<rparr>)"
  using assms
  by (simp_all add: project_to_valid_def project_to_valid_no_baseline_def init_candidates_entry)

lemma upt_8: "[0..<8] = [0, 1, 2, 3, 4, 5, 6, 7]"
  by (simp add: upt_rec)

lemma probe_calls_mem:
  "d < length c \<Longrightarrow> (FPlus i d, c[d := c ! d + h]) \<in> set (probe_calls i c)
     \<and> (FMinus i d, c[d := c ! d - h]) \<in> set (probe_calls i c)"
  by (auto simp: probe_calls_def)











section \<open>The run with any oracle\<close>

lemma ends_simps [simp]: "ends Q P (Inl (e, st)) = Q st" "ends Q P (Inr st) = P st"
  by (simp_all add: ends_def)

lemma for_each_ends:
  assumes "\<And>i s. i \<in> set xs \<Longrightarrow> P s \<Longrightarrow> ends Q P (body i s)"
    and "P st"
  shows "ends Q P (for_each xs body st)"
  using assms
proof (induction xs arbitrary: st)
  case Nil
  then show ?case by simp
next
  case (Cons i xs)
  from Cons.prems have b: "ends Q P (body i st)" by simp
  show ?case
  proof (cases "body i st")
    case (Inl x)
    with b show ?thesis by (cases x) simp
  next
    case (Inr s')
    with b have "P s'" by simp
    with Cons Inr show ?thesis by simp
  qed
qed

lemma shape_set_candidate:
  "shape dimn st \<Longrightarrow> shape dimn (set_candidate i d v st)"
  by (cases "i < length (candidates st)")
    (auto simp: shape_def set_candidate_def list_all_length nth_list_update)

lemma call_sdf_ends:
  assumes "i < n_candidates" "run_invariant q g st"
  shows "case call_sdf robot env site i st of
           Inl (e, s') \<Rightarrow> run_invariant q g s' \<and> grads s' = grads st
         | Inr (v, s') \<Rightarrow> run_invariant q g s' \<and> grads s' = grads st"
proof -
  have "length (candidates st ! i) = length q"
    using assms by (simp add: run_invariant_def shape_nth)
  with assms(2) show ?thesis
    by (auto simp: call_sdf_def Let_def run_invariant_def shape_def split: option.splits)
qed

lemma run_invariant_set_candidate:
  "run_invariant q g st \<Longrightarrow> run_invariant q g (set_candidate i d v st)"
  using shape_set_candidate [of "length q" st i d v]
  by (simp add: run_invariant_def) (simp add: set_candidate_def)

lemma grads_set_candidate [simp]: "grads (set_candidate i d v st) = grads st"
  by (simp add: set_candidate_def)

lemma run_invariant_set_grad:
  "run_invariant q g st \<Longrightarrow> run_invariant q g (set_grad i d v st)"
  by (simp add: run_invariant_def set_grad_def shape_def)

lemma grads_shape_set_grad:
  "grads_shape dimn st \<Longrightarrow> grads_shape dimn (set_grad i d v st)"
  by (cases "i < length (grads st)")
    (auto simp: grads_shape_def set_grad_def list_all_length nth_list_update)

lemma grads_shape_cong: "grads s' = grads st \<Longrightarrow> grads_shape dimn s' = grads_shape dimn st"
  by (simp add: grads_shape_def)

lemma gradient_dim_ends:
  assumes i: "i < n_candidates"
    and inv: "run_invariant q g st \<and> grads_shape dimn st"
  shows "ends (run_invariant q g) (\<lambda>s. run_invariant q g s \<and> grads_shape dimn s)
           (gradient_dim robot env i original_q d st)"
proof -
  let ?v = "original_q ! d"
  let ?s0 = "set_candidate i d (?v + h) st"
  have i0: "run_invariant q g ?s0" using inv by (simp add: run_invariant_set_candidate)
  show ?thesis
  proof (cases "call_sdf robot env (FPlus i d) i ?s0")
    case (Inl x)
    with call_sdf_ends [OF i i0, of robot env "FPlus i d"] show ?thesis
      by (cases x) (simp add: gradient_dim_def Let_def)
  next
    case (Inr y)
    obtain f_plus s1 where y: "y = (f_plus, s1)" by (cases y)
    with Inr call_sdf_ends [OF i i0, of robot env "FPlus i d"]
    have i1: "run_invariant q g s1" and g1: "grads s1 = grads st" by simp_all
    let ?s1 = "set_candidate i d (?v - h) s1"
    have i1': "run_invariant q g ?s1" using i1 by (simp add: run_invariant_set_candidate)
    show ?thesis
    proof (cases "call_sdf robot env (FMinus i d) i ?s1")
      case (Inl x)
      with call_sdf_ends [OF i i1', of robot env "FMinus i d"] Inr y show ?thesis
        by (cases x) (simp add: gradient_dim_def Let_def)
    next
      case Inr2: (Inr z)
      obtain f_minus s2 where z: "z = (f_minus, s2)" by (cases z)
      with Inr2 call_sdf_ends [OF i i1', of robot env "FMinus i d"]
      have i2: "run_invariant q g s2" and g2: "grads s2 = grads st" by (simp_all add: g1)
      have "grads_shape dimn (set_candidate i d ?v s2)"
        using inv g2 by (simp add: grads_shape_def)
      with i2 Inr y Inr2 z show ?thesis
        by (simp add: gradient_dim_def Let_def run_invariant_set_grad
            run_invariant_set_candidate grads_shape_set_grad)
    qed
  qed
qed

lemma gradient_candidate_ends:
  assumes i: "i < n_candidates"
    and inv: "run_invariant q g st \<and> grads_shape D st"
  shows "ends (run_invariant q g) (\<lambda>s. run_invariant q g s \<and> grads_shape D s)
           (gradient_candidate robot env dimn i st)"
  unfolding gradient_candidate_def Let_def
proof (rule for_each_ends)
  show "run_invariant q g st \<and> grads_shape D st" by (rule inv)
next
  fix d s
  assume "run_invariant q g s \<and> grads_shape D s"
  then show "ends (run_invariant q g) (\<lambda>s. run_invariant q g s \<and> grads_shape D s)
      (gradient_dim robot env i (candidates st ! i) d s)"
    by (rule gradient_dim_ends [OF i])
qed

lemma compute_gradients_ends:
  assumes inv: "run_invariant q g st"
  shows "ends (run_invariant q g) (\<lambda>s. run_invariant q g s \<and> grads_shape (length q) s)
           (compute_gradients robot env dimn st)"
  unfolding compute_gradients_def
proof (rule for_each_ends)
  show "run_invariant q g (st\<lparr>grads := zeros_like (candidates st)\<rparr>) \<and>
    grads_shape (length q) (st\<lparr>grads := zeros_like (candidates st)\<rparr>)"
    using inv
    by (simp add: run_invariant_def shape_def grads_shape_def zeros_like_def list_all_length)
next
  fix i s
  assume "i \<in> set [0..<n_candidates]"
    and "run_invariant q g s \<and> grads_shape (length q) s"
  then show "ends (run_invariant q g) (\<lambda>s. run_invariant q g s \<and> grads_shape (length q) s)
          (gradient_candidate robot env dimn i s)"
    by (intro gradient_candidate_ends) simp_all
qed

lemma compute_sdfs_ends:
  assumes inv: "run_invariant q g st"
  shows "ends (run_invariant q g) (run_invariant q g) (compute_sdfs robot env st)"
  unfolding compute_sdfs_def
proof (rule for_each_ends)
  show "run_invariant q g (st\<lparr>dists := replicate n_candidates 0\<rparr>)"
    using inv by (simp add: run_invariant_def shape_def)
next
  fix i s
  assume i: "i \<in> set [0..<n_candidates]" and s: "run_invariant q g s"
  then have "i < n_candidates" by simp
  from call_sdf_ends [OF this s, of robot env "Baseline i"]
  show "ends (run_invariant q g) (run_invariant q g)
     (case call_sdf robot env (Baseline i) i s of
        Inl x \<Rightarrow> Inl x
      | Inr (v, s') \<Rightarrow> Inr (s'\<lparr>dists := (dists s')[i := v]\<rparr>))"
    by (auto simp: run_invariant_def shape_def split: sum.splits)
qed

lemma update_rule_ends:
  assumes inv: "run_invariant q g st \<and> grads_shape (length q) st"
  shows "ends (run_invariant q g) (run_invariant q g) (update_rule learning_rate st)"
proof -
  have "ends (\<lambda>s. run_invariant q g s \<and> grads_shape (length q) s)
     (\<lambda>s. run_invariant q g s \<and> grads_shape (length q) s) (update_rule learning_rate st)"
    unfolding update_rule_def
  proof (rule for_each_ends)
    show "run_invariant q g st \<and> grads_shape (length q) st" by (rule inv)
  next
    fix i s
    assume "i \<in> set [0..<n_candidates]"
      and "run_invariant q g s \<and> grads_shape (length q) s"
    then show "ends (\<lambda>s. run_invariant q g s \<and> grads_shape (length q) s)
       (\<lambda>s. run_invariant q g s \<and> grads_shape (length q) s)
       (Inr (s\<lparr>candidates := (candidates s)
          [i := map2 (+) (candidates s ! i) (map (\<lambda>g. g * learning_rate) (grads s ! i))]\<rparr>))"
      by (auto simp: run_invariant_def shape_def grads_shape_def list_all_length nth_list_update)
  qed
  then show ?thesis
    by (auto simp: ends_def split: sum.splits)
qed

lemma step_body_ends:
  assumes inv: "run_invariant q g st"
  shows "ends (run_invariant q g) (run_invariant q g)
     (step_body robot env dimn learning_rate st)"
proof (cases "compute_sdfs robot env st")
  case (Inl x)
  with compute_sdfs_ends [OF inv, of robot env] show ?thesis
    by (cases x) (simp add: step_body_def)
next
  case (Inr s1)
  with compute_sdfs_ends [OF inv, of robot env] have i1: "run_invariant q g s1" by simp
  show ?thesis
  proof (cases "compute_gradients robot env dimn s1")
    case (Inl x)
    with compute_gradients_ends [OF i1, of robot env dimn] Inr show ?thesis
      by (cases x) (simp add: step_body_def)
  next
    case Inr2: (Inr s2)
    with compute_gradients_ends [OF i1, of robot env dimn]
    have "run_invariant q g s2 \<and> grads_shape (length q) s2" by simp
    from update_rule_ends [OF this, of learning_rate] Inr Inr2 show ?thesis
      by (simp add: step_body_def)
  qed
qed

lemma project_to_valid_ends:
  "ends (run_invariant q g) (run_invariant q g)
     (project_to_valid pcg64 robot q env steps learning_rate noise_scale g)"
proof (cases "noise_accepted noise_scale")
  case False
  then show ?thesis
    by (simp add: project_to_valid_def init_candidates_entry run_invariant_def shape_def tile_def
        list_all_length)
next
  case True
  have "run_invariant q g ((entry q g)\<lparr>candidates := noisy_copies pcg64 q noise_scale\<rparr>)"
    using shape_noisy_copies [where q = q and g = g and ?pcg64.0 = pcg64 and s = noise_scale]
    by (simp add: run_invariant_def)
  then have "ends (run_invariant q g) (run_invariant q g)
     (for_each [0..<nat steps] (\<lambda>step. step_body robot env (length q) learning_rate)
        ((entry q g)\<lparr>candidates := noisy_copies pcg64 q noise_scale\<rparr>))"
    by (intro for_each_ends step_body_ends)
  with True show ?thesis
    by (simp add: project_to_valid_def init_candidates_entry)
qed

lemma map_outcome_simps [simp]:
  "map_outcome u (Inl (e, st)) = Inl (e, u st)" "map_outcome u (Inr st) = Inr (u st)"
  by (simp_all add: map_outcome_def)

lemma for_each_map_outcome:
  assumes "\<And>i s. body i (u s) = map_outcome u (body i s)"
  shows "for_each xs body (u st) = map_outcome u (for_each xs body st)"
proof (induction xs arbitrary: st)
  case Nil
  show ?case by simp
next
  case (Cons i xs)
  show ?case
  proof (cases "body i st")
    case (Inl x)
    then show ?thesis by (cases x) (simp add: assms)
  next
    case (Inr s')
    then show ?thesis by (simp add: assms Cons.IH)
  qed
qed

lemma call_sdf_np_random:
  "call_sdf robot env site i (with_np_random g st) =
     (case call_sdf robot env site i st of
        Inl (e, s') \<Rightarrow> Inl (e, with_np_random g s')
      | Inr (v, s') \<Rightarrow> Inr (v, with_np_random g s'))"
  by (simp add: call_sdf_def Let_def with_np_random_def split: option.splits)

lemma set_candidate_np_random:
  "set_candidate i d v (with_np_random g st) = with_np_random g (set_candidate i d v st)"
  by (simp add: set_candidate_def with_np_random_def)

lemma set_grad_np_random:
  "set_grad i d v (with_np_random g st) = with_np_random g (set_grad i d v st)"
  by (simp add: set_grad_def with_np_random_def)

lemma candidates_np_random [simp]: "candidates (with_np_random g st) = candidates st"
  by (simp add: with_np_random_def)

lemma gradient_dim_np_random:
  "gradient_dim robot env i original_q d (with_np_random g st) =
     map_outcome (with_np_random g) (gradient_dim robot env i original_q d st)"
  by (simp add: gradient_dim_def Let_def set_candidate_np_random call_sdf_np_random
      set_grad_np_random split: sum.splits prod.splits)

lemma gradient_candidate_np_random:
  "gradient_candidate robot env dimn i (with_np_random g st) =
     map_outcome (with_np_random g) (gradient_candidate robot env dimn i st)"
  by (simp add: gradient_candidate_def Let_def for_each_map_outcome gradient_dim_np_random)

lemma compute_gradients_np_random:
  "compute_gradients robot env dimn (with_np_random g st) =
     map_outcome (with_np_random g) (compute_gradients robot env dimn st)"
proof -
  have "(with_np_random g st)\<lparr>grads := zeros_like (candidates st)\<rparr> =
      with_np_random g (st\<lparr>grads := zeros_like (candidates st)\<rparr>)"
    by (simp add: with_np_random_def)
  then show ?thesis
    by (simp add: compute_gradients_def for_each_map_outcome gradient_candidate_np_random)
qed

lemma dists_np_random:
  "dists (with_np_random g st) = dists st"
  "(with_np_random g st)\<lparr>dists := x\<rparr> = with_np_random g (st\<lparr>dists := x\<rparr>)"
  by (simp_all add: with_np_random_def)

lemma compute_sdfs_np_random:
  "compute_sdfs robot env (with_np_random g st) =
     map_outcome (with_np_random g) (compute_sdfs robot env st)"
proof -
  have a: "(with_np_random g st)\<lparr>dists := replicate n_candidates 0\<rparr> =
      with_np_random g (st\<lparr>dists := replicate n_candidates 0\<rparr>)"
    by (simp add: with_np_random_def)
  have b: "\<And>i s. (case call_sdf robot env (Baseline i) i (with_np_random g s) of
                 Inl x \<Rightarrow> Inl x
               | Inr (v, s') \<Rightarrow> Inr (s'\<lparr>dists := (dists s')[i := v]\<rparr>)) =
     map_outcome (with_np_random g) (case call_sdf robot env (Baseline i) i s of
                 Inl x \<Rightarrow> Inl x
               | Inr (v, s') \<Rightarrow> Inr (s'\<lparr>dists := (dists s')[i := v]\<rparr>))"
    by (simp add: call_sdf_np_random dists_np_random split: sum.splits prod.splits)
  show ?thesis
    unfolding compute_sdfs_def a
    by (rule for_each_map_outcome) (rule b)
qed

lemma update_rule_np_random:
  "update_rule learning_rate (with_np_random g st) =
     map_outcome (with_np_random g) (update_rule learning_rate st)"
  unfolding update_rule_def
  by (rule for_each_map_outcome) (simp add: with_np_random_def)

lemma step_body_np_random:
  "step_body robot env dimn learning_rate (with_np_random g st) =
     map_outcome (with_np_random g) (step_body robot env dimn learning_rate st)"
  by (simp add: step_body_def compute_sdfs_np_random compute_gradients_np_random
      update_rule_np_random split: sum.splits prod.splits)

lemma init_candidates_np_random:
  "init_candidates pcg64 noise_scale (entry q g2) =
     map_outcome (with_np_random g2) (init_candidates pcg64 noise_scale (entry q g1))"
  by (simp add: init_candidates_entry) (simp add: entry_def with_np_random_def)

lemma project_to_valid_np_random:
  "project_to_valid pcg64 robot q env steps learning_rate noise_scale g2 =
     map_outcome (with_np_random g2)
       (project_to_valid pcg64 robot q env steps learning_rate noise_scale g1)"
  by (simp add: project_to_valid_def init_candidates_np_random [of pcg64 noise_scale q g2 g1]
      for_each_map_outcome step_body_np_random split: sum.splits prod.splits)

lemma returned_map_outcome_np_random [simp]:
  "returned (map_outcome (with_np_random g) r) = returned r"
  by (simp add: returned_def map_outcome_def split: sum.splits prod.splits)

lemma length_noisy_copies_row:
  "i < 8 \<Longrightarrow> length (noisy_copies pcg64 q s ! i) = length q"
  by (simp add: noisy_copies_def)

lemma compute_sdfs_rejected:
  assumes "sdf robot (candidates st ! 0) env = None"
  shows "compute_sdfs robot env st =
     Inl (SdfError, st\<lparr>dists := replicate n_candidates 0,
                         trace := trace st @ [(Baseline 0, candidates st ! 0)]\<rparr>)"
  using assms
  by (simp add: compute_sdfs_def n_candidates_def upt_8 call_sdf_def Let_def)

lemma first_step_rejected:
  assumes "sdf robot (candidates st ! 0) env = None" "0 < n"
  shows "for_each [0..<n] (\<lambda>step. step_body robot env dimn learning_rate) st =
     Inl (SdfError, st\<lparr>dists := replicate n_candidates 0,
                         trace := trace st @ [(Baseline 0, candidates st ! 0)]\<rparr>)"
proof -
  from assms(2) have "[0..<n] = 0 # [Suc 0..<n]"
    by (simp add: upt_conv_Cons)
  then show ?thesis
    by (simp add: step_body_def compute_sdfs_rejected [OF assms(1)])
qed

section \<open>The run without the baseline distances\<close>

lemma for_each_erase:
  assumes "\<And>i s. map_outcome erase (body i s) = map_outcome erase (body i (erase s))"
  shows "map_outcome erase (for_each xs body st) = map_outcome erase (for_each xs body (erase st))"
proof (induction xs arbitrary: st)
  case Nil
  show ?case by (simp add: erase_def)
next
  case (Cons i xs)
  note b = assms [of i st]
  show ?case
  proof (cases "body i st")
    case (Inl x)
    obtain e s' where x: "x = (e, s')" by (cases x)
    with Inl b show ?thesis
      by (cases "body i (erase st)") (auto simp: map_outcome_def split: prod.splits)
  next
    case (Inr s')
    with b obtain s'' where s'': "body i (erase st) = Inr s''" "erase s' = erase s''"
      by (cases "body i (erase st)") (auto simp: map_outcome_def split: prod.splits)
    have "map_outcome erase (for_each xs body s') = map_outcome erase (for_each xs body (erase s'))"
      by (rule Cons.IH)
    also have "\<dots> = map_outcome erase (for_each xs body (erase s''))"
      by (simp add: s'')
    also have "\<dots> = map_outcome erase (for_each xs body s'')"
      by (rule Cons.IH [symmetric])
    finally show ?thesis
      using Inr s'' by simp
  qed
qed

lemma erase_sel [simp]:
  "candidates (erase st) = candidates st" "grads (erase st) = grads st"
  by (simp_all add: erase_def)

lemma erase_updates [simp]:
  "erase (st\<lparr>trace := t\<rparr>) = erase st" "erase (st\<lparr>dists := x\<rparr>) = erase st"
  "erase (st\<lparr>grads := y\<rparr>) = (erase st)\<lparr>grads := y\<rparr>"
  "erase (st\<lparr>candidates := z\<rparr>) = (erase st)\<lparr>candidates := z\<rparr>"
  "erase (erase st) = erase st"
  by (simp_all add: erase_def)

lemma gradient_dim_erase:
  "map_outcome erase (gradient_dim robot env i original_q d st) =
   map_outcome erase (gradient_dim robot env i original_q d (erase st))"
  by (simp add: gradient_dim_def call_sdf_def Let_def set_candidate_def set_grad_def
      split: option.splits)

lemma gradient_candidate_erase:
  "map_outcome erase (gradient_candidate robot env dimn i st) =
   map_outcome erase (gradient_candidate robot env dimn i (erase st))"
  unfolding gradient_candidate_def Let_def erase_sel
  by (rule for_each_erase) (rule gradient_dim_erase)

lemma compute_gradients_erase:
  "map_outcome erase (compute_gradients robot env dimn st) =
   map_outcome erase (compute_gradients robot env dimn (erase st))"
proof -
  have "map_outcome erase (compute_gradients robot env dimn st) =
      map_outcome erase (for_each [0..<n_candidates] (gradient_candidate robot env dimn)
        (erase (st\<lparr>grads := zeros_like (candidates st)\<rparr>)))"
    unfolding compute_gradients_def
    by (rule for_each_erase) (rule gradient_candidate_erase)
  also have "\<dots> = map_outcome erase (for_each [0..<n_candidates]
        (gradient_candidate robot env dimn)
        (erase ((erase st)\<lparr>grads := zeros_like (candidates (erase st))\<rparr>)))"
    by simp
  also have "\<dots> = map_outcome erase (compute_gradients robot env dimn (erase st))"
    unfolding compute_gradients_def
    by (rule for_each_erase [symmetric]) (rule gradient_candidate_erase)
  finally show ?thesis .
qed

lemma update_rule_erase:
  "map_outcome erase (update_rule learning_rate st) =
   map_outcome erase (update_rule learning_rate (erase st))"
  unfolding update_rule_def
  by (rule for_each_erase) simp

lemma compute_sdfs_erase:
  assumes "compute_sdfs robot env st = Inr s1"
  shows "erase s1 = erase st"
proof -
  have "ends (\<lambda>s. True) (\<lambda>s. erase s = erase st) (compute_sdfs robot env st)"
    unfolding compute_sdfs_def
    by (rule for_each_ends)
      (auto simp: call_sdf_def Let_def ends_def split: option.splits)
  with assms show ?thesis by simp
qed

lemma erase_eq_Inr:
  assumes "map_outcome erase r1 = map_outcome erase r2" "r1 = Inr s1"
  shows "\<exists>s2. r2 = Inr s2 \<and> erase s2 = erase s1"
  using assms by (cases r2) (auto simp: map_outcome_def split: prod.splits)

lemma step_body_without_baseline:
  assumes st: "step_body robot env dimn learning_rate s = Inr s'"
    and rel: "erase t = erase s"
  shows "\<exists>t'. step_body_no_baseline robot env dimn learning_rate t = Inr t' \<and> erase t' = erase s'"
proof -
  from st obtain s1 where s1: "compute_sdfs robot env s = Inr s1"
    by (auto simp: step_body_def split: sum.splits)
  with st obtain s2 where s2: "compute_gradients robot env dimn s1 = Inr s2"
    by (auto simp: step_body_def split: sum.splits)
  with st s1 have s3: "update_rule learning_rate s2 = Inr s'"
    by (simp add: step_body_def)
  have "erase s1 = erase t"
    using compute_sdfs_erase [OF s1] rel by simp
  then have "map_outcome erase (compute_gradients robot env dimn s1) =
      map_outcome erase (compute_gradients robot env dimn t)"
    using compute_gradients_erase [of robot env dimn s1] compute_gradients_erase [of robot env dimn t]
    by simp
  from erase_eq_Inr [OF this s2] obtain t2 where
    t2: "compute_gradients robot env dimn t = Inr t2" "erase t2 = erase s2"
    by blast
  then have "map_outcome erase (update_rule learning_rate s2) =
      map_outcome erase (update_rule learning_rate t2)"
    using update_rule_erase [of learning_rate s2] update_rule_erase [of learning_rate t2]
    by simp
  from erase_eq_Inr [OF this s3] obtain t' where
    "update_rule learning_rate t2 = Inr t'" "erase t' = erase s'"
    by blast
  with t2 show ?thesis
    by (simp add: step_body_no_baseline_def)
qed

lemma steps_without_baseline:
  assumes "for_each xs (\<lambda>step. step_body robot env dimn learning_rate) s = Inr s'"
    and "erase t = erase s"
  shows "\<exists>t'. for_each xs (\<lambda>step. step_body_no_baseline robot env dimn learning_rate) t = Inr t'
     \<and> erase t' = erase s'"
  using assms
proof (induction xs arbitrary: s t)
  case Nil
  then show ?case by simp
next
  case (Cons i xs)
  from Cons.prems(1) obtain s1 where s1: "step_body robot env dimn learning_rate s = Inr s1"
    "for_each xs (\<lambda>step. step_body robot env dimn learning_rate) s1 = Inr s'"
    by (auto split: sum.splits)
  from step_body_without_baseline [OF s1(1) Cons.prems(2)] obtain t1 where
    t1: "step_body_no_baseline robot env dimn learning_rate t = Inr t1" "erase t1 = erase s1"
    by blast
  from Cons.IH [OF s1(2) t1(2)] t1 show ?case
    by simp
qed

lemma project_to_valid_without_baseline:
  assumes "project_to_valid pcg64 robot q env steps learning_rate noise_scale g = Inr s'"
  shows "\<exists>t'. project_to_valid_no_baseline pcg64 robot q env steps learning_rate noise_scale g
       = Inr t' \<and> candidates t' = candidates s' \<and> grads t' = grads s'"
proof (cases "init_candidates pcg64 noise_scale (entry q g)")
  case (Inl x)
  with assms show ?thesis by (simp add: project_to_valid_def)
next
  case (Inr s0)
  with assms have "for_each [0..<nat steps] (\<lambda>step. step_body robot env (length q) learning_rate) s0
      = Inr s'"
    by (simp add: project_to_valid_def)
  from steps_without_baseline [OF this refl] obtain t' where
    t': "for_each [0..<nat steps] (\<lambda>step. step_body_no_baseline robot env (length q) learning_rate)
      s0 = Inr t'" and e: "erase t' = erase s'"
    by blast
  from arg_cong [OF e, of candidates] have "candidates t' = candidates s'" by simp
  moreover from arg_cong [OF e, of grads] have "grads t' = grads s'" by simp
  ultimately show ?thesis
    using Inr t' by (simp add: project_to_valid_no_baseline_def)
qed

lemma agree_without_baseline_total:
  assumes tot: "\<And>c. sdf robot c env = Some (f c)"
  shows "returned (project_to_valid pcg64 robot q env steps learning_rate noise_scale g) =
       returned (project_to_valid_no_baseline pcg64 robot q env steps learning_rate noise_scale g)
     \<and> grads (outcome_state (project_to_valid pcg64 robot q env steps learning_rate noise_scale g)) =
       grads (outcome_state
         (project_to_valid_no_baseline pcg64 robot q env steps learning_rate noise_scale g))"
proof (cases "noise_accepted noise_scale")
  case False
  then show ?thesis
    by (simp add: project_to_valid_negative_noise)
next
  case True
  from project_to_valid_total [OF tot True, of pcg64 q steps learning_rate g]
    project_to_valid_no_baseline_total [OF tot True, of pcg64 q steps learning_rate g]
  show ?thesis
    by (auto simp: returned_def outcome_state_def)
qed

section \<open>A zero learning rate, and concrete runs\<close>

lemma ascent_zero:
  assumes "list_all in_range c" "list_all is_finite g" "length g = length c"
  shows "ascent 0 c g = c"
  using assms
  by (auto simp: ascent_def list_all_length zero_times_finite plus_zero intro!: nth_equalityI)

lemma reference_step_zero:
  assumes "list_all (list_all in_range) pool" "finite_gradients f pool"
  shows "reference_step f 0 pool = pool"
  using assms
  by (auto simp: reference_step_def finite_gradients_def list_all_length ascent_zero
      intro!: nth_equalityI)

lemma reference_steps_zero:
  assumes "list_all (list_all in_range) pool" "finite_gradients f pool"
  shows "reference_steps f 0 n pool = pool"
  using assms by (induction n) (simp_all add: reference_step_zero)

lemma in_range_noisy_copies: "list_all (list_all in_range) (noisy_copies pcg64 q s)"
  by (simp add: noisy_copies_def list_all_length in_range_plus)

lemma last_grads_zero:
  assumes "list_all (list_all in_range) (candidates st)" "finite_gradients f (candidates st)"
    and "0 < n"
  shows "last_grads f 0 n st = map (central_difference f) (candidates st)"
  using assms by (cases n) (simp_all add: last_grads_def reference_steps_zero)

lemmas float64_eval =
  zero_float64_def minus_float64_def to_float64_small h_def half_stream_def noise_accepted_def

lemma noise_accepted_zero: "noise_accepted 0"
  by (simp add: float64_eval)

lemma noisy_copies_zero_noise:
  "noisy_copies half_stream [Finite x] 0 =
     [[to_float64 x], [to_float64 x], [to_float64 x], [to_float64 x], [to_float64 x],
      [to_float64 x], [to_float64 x], [to_float64 x]]"
  by (simp add: noisy_copies_def float64_eval upt_8)

lemma pool_of_ones:
  "noisy_copies half_stream [Finite 1] 0 =
     [[Finite 1], [Finite 1], [Finite 1], [Finite 1], [Finite 1], [Finite 1], [Finite 1],
      [Finite 1]]"
  by (simp add: noisy_copies_zero_noise to_float64_small)

lemma inf_step:
  "reference_step (\<lambda>c. PosInf) 0
     [[Finite 1], [Finite 1], [Finite 1], [Finite 1], [Finite 1], [Finite 1], [Finite 1],
      [Finite 1]] = [[NaN], [NaN], [NaN], [NaN], [NaN], [NaN], [NaN], [NaN]]"
  by (simp add: reference_step_def Let_def central_difference_def ascent_def float64_eval upt_8)

lemma coordinate_robot_total: "\<And>c. sdf coordinate_robot c () = Some ((\<lambda>c. c ! 0) c)"
  by (simp add: coordinate_robot_def)

lemma pool_of_zeros:
  "noisy_copies half_stream [Finite 0] 0 =
     [[Finite 0], [Finite 0], [Finite 0], [Finite 0], [Finite 0], [Finite 0], [Finite 0],
      [Finite 0]]"
  by (simp add: noisy_copies_zero_noise to_float64_small)

lemma coordinate_step:
  "reference_step (\<lambda>c. c ! 0) (Finite 1)
     [[Finite 0], [Finite 0], [Finite 0], [Finite 0], [Finite 0], [Finite 0], [Finite 0],
      [Finite 0]] =
     [[Finite 1], [Finite 1], [Finite 1], [Finite 1], [Finite 1], [Finite 1], [Finite 1],
      [Finite 1]]"
  by (simp add: reference_step_def Let_def central_difference_def ascent_def float64_eval upt_8)

lemma coordinate_gradients_finite:
  "finite_gradients (\<lambda>c. c ! 0)
     [[Finite 0], [Finite 0], [Finite 0], [Finite 0], [Finite 0], [Finite 0], [Finite 0],
      [Finite 0]]"
  by (simp add: finite_gradients_def central_difference_def float64_eval)

lemma coordinate_gradients:
  "central_difference (\<lambda>c. c ! 0) [Finite 0] = [Finite 1]"
  by (simp add: central_difference_def float64_eval)

section \<open>Claims\<close>

text \<open>
  C1. Synchronous update. With an oracle that never raises, the pool that
  \<open>project_to_valid\<close> returns is the pool of the snapshot-then-update reference after
  \<open>steps\<close> steps from the initial pool: in every step all gradients are taken from the pool
  as the previous step left it, and only then the candidates are updated. The in-place
  probes of lines 38 and 42 are undone by line 46: after the body of the loop over \<open>d\<close> the
  array \<open>candidates\<close> is what it was before, and so it is after the whole gradient phase.
  (A noise scale that \<^verbatim>\<open>rng.uniform\<close> rejects makes the initializer raise; then nothing is
  returned.)
\<close>

theorem synchronous_update:
  assumes tot: "\<And>c. sdf robot c env = Some (f c)"
  shows "returned (project_to_valid pcg64 robot q env steps learning_rate noise_scale g) =
       (if noise_accepted noise_scale
        then Some (reference_steps f learning_rate (nat steps) (noisy_copies pcg64 q noise_scale))
        else None)
     \<and> (\<forall>st i d. i < length (candidates st) \<longrightarrow>
          (\<exists>s'. gradient_dim robot env i (candidates st ! i) d st = Inr s'
             \<and> candidates s' = candidates st))
     \<and> (\<forall>st dimn. shape dimn st \<longrightarrow>
          (\<exists>s'. compute_gradients robot env dimn st = Inr s' \<and> candidates s' = candidates st))"
proof (intro conjI allI impI)
  show "returned (project_to_valid pcg64 robot q env steps learning_rate noise_scale g) =
       (if noise_accepted noise_scale
        then Some (reference_steps f learning_rate (nat steps) (noisy_copies pcg64 q noise_scale))
        else None)"
  proof (cases "noise_accepted noise_scale")
    case False
    then show ?thesis
      by (simp add: project_to_valid_negative_noise returned_def)
  next
    case True
    from project_to_valid_total [OF tot True, of pcg64 q steps learning_rate g] True
    show ?thesis
      by (auto simp: returned_def)
  qed
next
  fix st :: state and i d
  assume "i < length (candidates st)"
  from gradient_dim_total [OF tot this refl, of d]
  show "\<exists>s'. gradient_dim robot env i (candidates st ! i) d st = Inr s'
             \<and> candidates s' = candidates st"
    by blast
next
  fix st :: state and dimn
  assume "shape dimn st"
  from compute_gradients_total [OF tot this]
  show "\<exists>s'. compute_gradients robot env dimn st = Inr s' \<and> candidates s' = candidates st"
    by blast
qed

theorem synchronous_update_witness:
  "returned (project_to_valid half_stream coordinate_robot [Finite 0] () 1 (Finite 1) 0
      (default_rng 0)) =
     Some [[Finite 1], [Finite 1], [Finite 1], [Finite 1], [Finite 1], [Finite 1], [Finite 1],
       [Finite 1]]
   \<and> (\<exists>s'. gradient_dim coordinate_robot () 2 [Finite 5, Finite 7] 1
          ((entry [0, 0] (default_rng 0))\<lparr>candidates := replicate 8 [Finite 5, Finite 7]\<rparr>) = Inr s'
        \<and> candidates s' = replicate 8 [Finite 5, Finite 7])"
proof -
  note s = synchronous_update [OF coordinate_robot_total]
  have "returned (project_to_valid half_stream coordinate_robot [Finite 0] () 1 (Finite 1) 0
      (default_rng 0)) =
     Some [[Finite 1], [Finite 1], [Finite 1], [Finite 1], [Finite 1], [Finite 1], [Finite 1],
       [Finite 1]]"
    using s [THEN conjunct1, of half_stream "[Finite 0]" 1 "Finite 1" 0 "default_rng 0"]
    by (simp add: noise_accepted_zero pool_of_zeros coordinate_step)
  moreover have "\<exists>s'. gradient_dim coordinate_robot () 2 [Finite 5, Finite 7] 1
          ((entry [0, 0] (default_rng 0))\<lparr>candidates := replicate 8 [Finite 5, Finite 7]\<rparr>) = Inr s'
        \<and> candidates s' = replicate 8 [Finite 5, Finite 7]"
    using s [THEN conjunct2, THEN conjunct1, rule_format,
        of 2 "(entry [0, 0] (default_rng 0))\<lparr>candidates := replicate 8 [Finite 5, Finite 7]\<rparr>" 1]
    by simp
  ultimately show ?thesis
    by (rule conjI)
qed

text \<open>
  C2. Central difference. After the gradient phase of a step (lines 28 to 48), run on a
  pool of \<open>K\<close> rows of length \<open>dimn\<close> with an oracle \<open>f\<close> that never raises, the entry
  \<open>grads[i, d]\<close> is \<open>(f (c with c[d] + h) - f (c with c[d] - h)) / (2 h)\<close> for the candidate
  \<open>c\<close> of row \<open>i\<close>, with \<open>h = 1e-4\<close>; the oracle was invoked on exactly these two
  configurations, which differ from \<open>c\<close> in coordinate \<open>d\<close> only.
\<close>

theorem central_difference_gradient:
  assumes tot: "\<And>c. sdf robot c env = Some (f c)"
    and sh: "shape dimn st"
    and i: "i < n_candidates"
    and d: "d < dimn"
    and c: "c = candidates st ! i"
  shows "\<exists>s'. compute_gradients robot env dimn st = Inr s'
     \<and> grads s' ! i ! d = (f (c[d := c ! d + h]) - f (c[d := c ! d - h])) / (Finite 2 * h)
     \<and> (FPlus i d, c[d := c ! d + h]) \<in> set (trace s')
     \<and> (FMinus i d, c[d := c ! d - h]) \<in> set (trace s')
     \<and> candidates s' = candidates st
     \<and> h = Finite (1 / 10000)"
proof -
  from compute_gradients_total [OF tot sh] obtain s' where
    s': "compute_gradients robot env dimn st = Inr s'" "candidates s' = candidates st"
      "grads s' = map (central_difference f) (candidates st)"
      "trace s' = trace st @ concat (map (\<lambda>i. probe_calls i (candidates st ! i)) [0..<n_candidates])"
    by blast
  have len: "length (candidates st) = n_candidates" and lc: "length c = dimn"
    using sh i c by (simp_all add: shape_length shape_nth)
  have g: "grads s' ! i ! d = (f (c[d := c ! d + h]) - f (c[d := c ! d - h])) / (Finite 2 * h)"
    using s' len i d lc c by (simp add: central_difference_def)
  have "set (probe_calls i c) \<subseteq> set (trace s')"
    using s' i c by auto
  with probe_calls_mem [of d c i] d lc
  have "(FPlus i d, c[d := c ! d + h]) \<in> set (trace s')"
    "(FMinus i d, c[d := c ! d - h]) \<in> set (trace s')"
    by auto
  with s' g show ?thesis
    by (simp add: h_def)
qed

theorem central_difference_gradient_witness:
  "\<exists>s'. compute_gradients \<lparr>sdf = \<lambda>c e. Some (Finite 3 * c ! 1)\<rparr> () 2
        ((entry [0, 0] (default_rng 0))\<lparr>candidates := replicate 8 [Finite 5, Finite 7]\<rparr>) = Inr s'
     \<and> grads s' ! 2 ! 1 = Finite 3"
proof -
  have tot: "\<And>c. sdf \<lparr>sdf = \<lambda>c e. Some (Finite 3 * c ! 1)\<rparr> c ()
      = Some ((\<lambda>c. Finite 3 * c ! 1) c)"
    by simp
  have sh: "shape 2 ((entry [0, 0] (default_rng 0))\<lparr>candidates := replicate 8 [Finite 5, Finite 7]\<rparr>)"
    by (simp add: shape_def n_candidates_def list_all_length)
  have i: "2 < n_candidates" by (simp add: n_candidates_def)
  have c: "[Finite 5, Finite 7] =
      candidates ((entry [0, 0] (default_rng 0))\<lparr>candidates := replicate 8 [Finite 5, Finite 7]\<rparr>) ! 2"
    by simp
  from central_difference_gradient [OF tot sh i _ c, of 1]
  show ?thesis
    by (auto simp: float64_eval)
qed

text \<open>
  C3. Determinism. The generator of the initializer is made inside the call, seeded with
  \<open>42\<close>; the process-wide generator \<open>g\<close> is neither read nor written. Two calls with the
  same arguments, started under any two states \<open>g1\<close> and \<open>g2\<close> of the process-wide
  generator, end alike (the outcomes differ in that untouched generator only): they return
  the same pool, their initial pools are the same (the noisy copies drawn from the stream
  of seed \<open>42\<close> from its start), and the process-wide generator is left as it was.
\<close>

theorem deterministic_seeding:
  "project_to_valid pcg64 robot q env steps learning_rate noise_scale g2 =
     map_outcome (with_np_random g2)
       (project_to_valid pcg64 robot q env steps learning_rate noise_scale g1)
   \<and> returned (project_to_valid pcg64 robot q env steps learning_rate noise_scale g1) =
     returned (project_to_valid pcg64 robot q env steps learning_rate noise_scale g2)
   \<and> returned (init_candidates pcg64 noise_scale (entry q g1)) =
     returned (init_candidates pcg64 noise_scale (entry q g2))
   \<and> returned (init_candidates pcg64 noise_scale (entry q g1)) =
     (if noise_accepted noise_scale then Some (noisy_copies pcg64 q noise_scale) else None)
   \<and> np_random (outcome_state
        (project_to_valid pcg64 robot q env steps learning_rate noise_scale g1)) = g1"
proof -
  have "ends (run_invariant q g1) (run_invariant q g1)
     (project_to_valid pcg64 robot q env steps learning_rate noise_scale g1)"
    by (rule project_to_valid_ends)
  then have "np_random (outcome_state
        (project_to_valid pcg64 robot q env steps learning_rate noise_scale g1)) = g1"
    by (auto simp: ends_def outcome_state_def run_invariant_def split: sum.splits)
  moreover have "returned (project_to_valid pcg64 robot q env steps learning_rate noise_scale g2) =
     returned (project_to_valid pcg64 robot q env steps learning_rate noise_scale g1)"
    by (subst project_to_valid_np_random [of _ _ _ _ _ _ _ g2 g1]) simp
  moreover have "returned (init_candidates pcg64 noise_scale (entry q g2)) =
     returned (init_candidates pcg64 noise_scale (entry q g1))"
    by (subst init_candidates_np_random [of _ _ _ g2 g1]) simp
  moreover have "returned (init_candidates pcg64 noise_scale (entry q g1)) =
     (if noise_accepted noise_scale then Some (noisy_copies pcg64 q noise_scale) else None)"
    by (simp add: init_candidates_entry returned_def)
  ultimately show ?thesis
    using project_to_valid_np_random [of pcg64 robot q env steps learning_rate noise_scale g2 g1]
    by simp
qed

theorem deterministic_seeding_witness:
  "returned (project_to_valid half_stream coordinate_robot [Finite 0] () 1 (Finite 1) 0
      (default_rng 0)) =
   returned (project_to_valid half_stream coordinate_robot [Finite 0] () 1 (Finite 1) 0
      \<lparr>seed = 42, pos = 1000\<rparr>)
   \<and> returned (init_candidates half_stream 0 (entry [Finite 0] (default_rng 0))) =
       Some [[Finite 0], [Finite 0], [Finite 0], [Finite 0], [Finite 0], [Finite 0], [Finite 0],
         [Finite 0]]"
proof -
  note d = deterministic_seeding [of half_stream coordinate_robot "[Finite 0]" "()" 1 "Finite 1" 0
      "\<lparr>seed = 42, pos = 1000\<rparr>" "default_rng 0"]
  have "returned (init_candidates half_stream 0 (entry [Finite 0] (default_rng 0))) =
       Some [[Finite 0], [Finite 0], [Finite 0], [Finite 0], [Finite 0], [Finite 0], [Finite 0],
         [Finite 0]]"
    using d [THEN conjunct2, THEN conjunct2, THEN conjunct2, THEN conjunct1]
    by (simp add: noise_accepted_zero pool_of_zeros)
  with d [THEN conjunct2, THEN conjunct1] show ?thesis
    by (rule conjI)
qed

text \<open>
  C4. With \<open>steps = 0\<close> the call ends as the initializer of lines 12 to 17 ends: no gradient
  is applied and \<^verbatim>\<open>robot.sdf\<close> is never invoked (the trace is empty). For a noise scale
  that \<^verbatim>\<open>rng.uniform\<close> accepts the returned pool is the \<open>K\<close> noisy copies of \<open>q\<close>; for
  another one the initializer raises and so does the call.
\<close>

theorem zero_steps_identity:
  "project_to_valid pcg64 robot q env 0 learning_rate noise_scale g =
     init_candidates pcg64 noise_scale (entry q g)
   \<and> trace (outcome_state (project_to_valid pcg64 robot q env 0 learning_rate noise_scale g)) = []
   \<and> returned (project_to_valid pcg64 robot q env 0 learning_rate noise_scale g) =
       (if noise_accepted noise_scale then Some (noisy_copies pcg64 q noise_scale) else None)"
  by (simp add: project_to_valid_def init_candidates_entry outcome_state_def returned_def)

theorem zero_steps_identity_witness:
  "returned (project_to_valid half_stream \<lparr>sdf = \<lambda>c e. None\<rparr> [Finite 0] () 0 (Finite 3) 0
      (default_rng 7)) =
     Some [[Finite 0], [Finite 0], [Finite 0], [Finite 0], [Finite 0], [Finite 0], [Finite 0],
       [Finite 0]]
   \<and> trace (outcome_state (project_to_valid half_stream \<lparr>sdf = \<lambda>c e. None\<rparr> [Finite 0] () 0
      (Finite 3) 0 (default_rng 7))) = []"
proof -
  note z = zero_steps_identity [of half_stream "\<lparr>sdf = \<lambda>c e. None\<rparr>" "[Finite 0]" "()" "Finite 3" 0
      "default_rng 7"]
  from z [THEN conjunct2, THEN conjunct2] z [THEN conjunct2, THEN conjunct1]
  show ?thesis
    by (simp add: noise_accepted_zero pool_of_zeros)
qed

text \<open>
  C5. Zero learning rate. The claim that a call with \<open>learning_rate = 0\<close> returns the
  initial pool on every input does not hold: line 53 adds \<open>grads[i] * 0\<close>, and that product
  is NaN where the gradient is infinite or NaN. With a distance that is infinite everywhere
  the gradient of line 48 is \<open>(inf - inf) / (2 h)\<close>, which is NaN, and one step turns the
  pool of ones into a pool of NaN.
\<close>

theorem zero_learning_rate_counterexample:
  "returned (project_to_valid half_stream inf_robot [Finite 1] () 0 0 0 (default_rng 0)) =
     Some [[Finite 1], [Finite 1], [Finite 1], [Finite 1], [Finite 1], [Finite 1], [Finite 1],
       [Finite 1]]
   \<and> returned (project_to_valid half_stream inf_robot [Finite 1] () 1 0 0 (default_rng 0)) =
     Some [[NaN], [NaN], [NaN], [NaN], [NaN], [NaN], [NaN], [NaN]]
   \<and> returned (project_to_valid half_stream inf_robot [Finite 1] () 1 0 0 (default_rng 0)) \<noteq>
     returned (project_to_valid half_stream inf_robot [Finite 1] () 0 0 0 (default_rng 0))"
proof -
  have tot: "\<And>c. sdf inf_robot c () = Some ((\<lambda>c. PosInf) c)"
    by (simp add: inf_robot_def)
  have "returned (project_to_valid half_stream inf_robot [Finite 1] () 0 0 0 (default_rng 0)) =
     Some [[Finite 1], [Finite 1], [Finite 1], [Finite 1], [Finite 1], [Finite 1], [Finite 1],
       [Finite 1]]"
    using project_to_valid_total [OF tot noise_accepted_zero, of half_stream "[Finite 1]" 0 0
        "default_rng 0"]
    by (auto simp: returned_def pool_of_ones)
  moreover
  have "returned (project_to_valid half_stream inf_robot [Finite 1] () 1 0 0 (default_rng 0)) =
     Some [[NaN], [NaN], [NaN], [NaN], [NaN], [NaN], [NaN], [NaN]]"
    using project_to_valid_total [OF tot noise_accepted_zero, of half_stream "[Finite 1]" 1 0
        "default_rng 0"]
    by (auto simp: returned_def pool_of_ones inf_step)
  ultimately show ?thesis
    by simp
qed

text \<open>
  C5, as the code has it. With \<open>learning_rate = 0\<close> and an oracle that never raises, the
  call returns what the initializer returns, for every \<open>steps\<close>, provided that every
  central-difference gradient of every initial candidate is finite: the \<open>K\<close> noisy copies
  of \<open>q\<close>. The gradients are still computed: the oracle is invoked at every site of every
  step, and after a step \<open>grads\<close> holds the central differences of the candidates.
\<close>

theorem zero_learning_rate_identity:
  assumes tot: "\<And>c. sdf robot c env = Some (f c)"
    and fin: "finite_gradients f (noisy_copies pcg64 q noise_scale)"
  shows "returned (project_to_valid pcg64 robot q env steps 0 noise_scale g) =
       returned (init_candidates pcg64 noise_scale (entry q g))
     \<and> returned (project_to_valid pcg64 robot q env steps 0 noise_scale g) =
       (if noise_accepted noise_scale then Some (noisy_copies pcg64 q noise_scale) else None)
     \<and> (noise_accepted noise_scale \<longrightarrow>
          map fst (trace (outcome_state (project_to_valid pcg64 robot q env steps 0 noise_scale g)))
            = concat (replicate (nat steps) (step_sites (length q))))
     \<and> (noise_accepted noise_scale \<and> 0 < steps \<longrightarrow>
          grads (outcome_state (project_to_valid pcg64 robot q env steps 0 noise_scale g))
            = map (central_difference f) (noisy_copies pcg64 q noise_scale))"
proof (cases "noise_accepted noise_scale")
  case False
  then show ?thesis
    by (simp add: project_to_valid_negative_noise init_candidates_entry returned_def)
next
  case True
  from project_to_valid_total [OF tot True, of pcg64 q steps 0 g] obtain s' where
    s': "project_to_valid pcg64 robot q env steps 0 noise_scale g = Inr s'"
      "candidates s' = reference_steps f 0 (nat steps) (noisy_copies pcg64 q noise_scale)"
      "grads s' = last_grads f 0 (nat steps)
          ((entry q g)\<lparr>candidates := noisy_copies pcg64 q noise_scale\<rparr>)"
      "map fst (trace s') = concat (replicate (nat steps) (step_sites (length q)))"
    by blast
  have c: "candidates s' = noisy_copies pcg64 q noise_scale"
    using s'(2) by (simp add: reference_steps_zero [OF in_range_noisy_copies fin])
  have g: "0 < steps \<Longrightarrow> grads s' = map (central_difference f) (noisy_copies pcg64 q noise_scale)"
    using s'(3) last_grads_zero [of "(entry q g)\<lparr>candidates := noisy_copies pcg64 q noise_scale\<rparr>"
        f "nat steps"] in_range_noisy_copies [of pcg64 q noise_scale] fin
    by simp
  from True s'(1) s'(4) c g show ?thesis
    by (simp add: returned_def outcome_state_def init_candidates_entry)
qed

theorem zero_learning_rate_identity_witness:
  "returned (project_to_valid half_stream coordinate_robot [Finite 0] () 5 0 0 (default_rng 0)) =
     Some [[Finite 0], [Finite 0], [Finite 0], [Finite 0], [Finite 0], [Finite 0], [Finite 0],
       [Finite 0]]
   \<and> grads (outcome_state
        (project_to_valid half_stream coordinate_robot [Finite 0] () 5 0 0 (default_rng 0))) =
     [[Finite 1], [Finite 1], [Finite 1], [Finite 1], [Finite 1], [Finite 1], [Finite 1],
       [Finite 1]]"
proof -
  have fin: "finite_gradients (\<lambda>c. c ! 0) (noisy_copies half_stream [Finite 0] 0)"
    by (simp add: pool_of_zeros coordinate_gradients_finite)
  note z = zero_learning_rate_identity [OF coordinate_robot_total fin, of 5 "default_rng 0"]
  have "returned (project_to_valid half_stream coordinate_robot [Finite 0] () 5 0 0
      (default_rng 0)) =
     Some [[Finite 0], [Finite 0], [Finite 0], [Finite 0], [Finite 0], [Finite 0], [Finite 0],
       [Finite 0]]"
    using z [THEN conjunct2, THEN conjunct1]
    by (simp add: noise_accepted_zero pool_of_zeros)
  moreover have "grads (outcome_state
        (project_to_valid half_stream coordinate_robot [Finite 0] () 5 0 0 (default_rng 0))) =
     [[Finite 1], [Finite 1], [Finite 1], [Finite 1], [Finite 1], [Finite 1], [Finite 1],
       [Finite 1]]"
    using z [THEN conjunct2, THEN conjunct2, THEN conjunct2]
    by (simp add: noise_accepted_zero pool_of_zeros coordinate_gradients)
  ultimately show ?thesis
    by (rule conjI)
qed

text \<open>
  C6. Shape of the pool. For every oracle and all parameter values, the state in which a
  call ends, by return or by a raise at any point of the run, holds a pool of \<open>K = 8\<close> rows
  of length \<open>len(q)\<close>; every configuration the oracle was invoked on had length \<open>len(q)\<close>;
  a returned pool has exactly \<open>8\<close> configurations of length \<open>len(q)\<close>.
\<close>

theorem pool_shape_invariant:
  "shape (length q)
     (outcome_state (project_to_valid pcg64 robot q env steps learning_rate noise_scale g))
   \<and> list_all (\<lambda>(site, c). length c = length q)
       (trace (outcome_state (project_to_valid pcg64 robot q env steps learning_rate noise_scale g)))
   \<and> (case returned (project_to_valid pcg64 robot q env steps learning_rate noise_scale g) of
        None \<Rightarrow> True
      | Some pool \<Rightarrow> length pool = 8 \<and> list_all (\<lambda>c. length c = length q) pool)"
  using project_to_valid_ends [of q g pcg64 robot env steps learning_rate noise_scale]
  by (auto simp: ends_def outcome_state_def returned_def run_invariant_def shape_def
      n_candidates_def split: sum.splits)

theorem pool_shape_invariant_witness:
  "shape (length [Finite 1, Finite 2, Finite 3]) (outcome_state
     (project_to_valid half_stream (dimension_checked 2 zero_sdf) [Finite 1, Finite 2, Finite 3] ()
        4 (Finite 1) 0 (default_rng 0)))"
  by (rule pool_shape_invariant [of "[Finite 1, Finite 2, Finite 3]" half_stream
      "dimension_checked 2 zero_sdf" "()" 4 "Finite 1" 0 "default_rng 0", THEN conjunct1])

text \<open>
  C7. Dimension mismatch. The claim that a call with \<open>len(q) \<noteq> D\<close> fails before any
  evaluation of the distance does not hold: \<open>project_to_valid\<close> never compares \<open>len(q)\<close>
  with anything. With \<open>steps = 0\<close> and a robot that expects two joints, a call on a
  configuration of length one returns eight configurations of length one.
\<close>

theorem fail_fast_counterexample:
  "length [Finite 0] \<noteq> 2
   \<and> project_to_valid half_stream (dimension_checked 2 zero_sdf) [Finite 0] () 0 (Finite 1) 0
       (default_rng 0) =
       Inr ((entry [Finite 0] (default_rng 0))\<lparr>candidates :=
         [[Finite 0], [Finite 0], [Finite 0], [Finite 0], [Finite 0], [Finite 0], [Finite 0],
          [Finite 0]]\<rparr>)"
  by (simp add: project_to_valid_def init_candidates_entry noise_accepted_zero pool_of_zeros)

text \<open>
  C7, as the code has it. Let the robot reject every configuration whose length is not
  \<open>D\<close>, let \<open>len(q) \<noteq> D\<close> and let the noise scale be accepted. The candidates are the
  \<open>K\<close> noisy copies of \<open>q\<close>, each of length \<open>len(q)\<close>: nothing is truncated or padded. With
  \<open>steps \<le> 0\<close> the oracle is never invoked and the call returns these copies. With
  \<open>steps > 0\<close> the call fails at its first invocation of the oracle, the baseline distance
  of candidate \<open>0\<close> in the first step, which is the only entry of the trace.
\<close>

theorem dimension_mismatch_surfaces_in_oracle:
  assumes mismatch: "length q \<noteq> D"
    and ns: "noise_accepted noise_scale"
  shows "(steps \<le> 0 \<longrightarrow>
            project_to_valid pcg64 (dimension_checked D f) q env steps learning_rate noise_scale g =
              Inr ((entry q g)\<lparr>candidates := noisy_copies pcg64 q noise_scale\<rparr>))
     \<and> (0 < steps \<longrightarrow>
            project_to_valid pcg64 (dimension_checked D f) q env steps learning_rate noise_scale g =
              Inl (SdfError, (entry q g)\<lparr>candidates := noisy_copies pcg64 q noise_scale,
                     dists := replicate n_candidates 0,
                     trace := [(Baseline 0, noisy_copies pcg64 q noise_scale ! 0)]\<rparr>))
     \<and> length (noisy_copies pcg64 q noise_scale) = 8
     \<and> list_all (\<lambda>c. length c = length q) (noisy_copies pcg64 q noise_scale)"
proof (intro conjI impI)
  assume "steps \<le> 0"
  with ns show "project_to_valid pcg64 (dimension_checked D f) q env steps learning_rate
      noise_scale g = Inr ((entry q g)\<lparr>candidates := noisy_copies pcg64 q noise_scale\<rparr>)"
    by (simp add: project_to_valid_def init_candidates_entry)
next
  assume pos: "0 < steps"
  let ?st = "(entry q g)\<lparr>candidates := noisy_copies pcg64 q noise_scale\<rparr>"
  have "sdf (dimension_checked D f) (candidates ?st ! 0) env = None"
    using mismatch by (simp add: dimension_checked_def length_noisy_copies_row)
  from first_step_rejected [OF this, of "nat steps" "length q" learning_rate] pos ns
  show "project_to_valid pcg64 (dimension_checked D f) q env steps learning_rate noise_scale g =
              Inl (SdfError, (entry q g)\<lparr>candidates := noisy_copies pcg64 q noise_scale,
                     dists := replicate n_candidates 0,
                     trace := [(Baseline 0, noisy_copies pcg64 q noise_scale ! 0)]\<rparr>)"
    by (simp add: project_to_valid_def init_candidates_entry)
next
  show "length (noisy_copies pcg64 q noise_scale) = 8"
    by (simp add: noisy_copies_def)
  show "list_all (\<lambda>c. length c = length q) (noisy_copies pcg64 q noise_scale)"
    by (simp add: noisy_copies_def list_all_length)
qed

theorem dimension_mismatch_surfaces_in_oracle_witness:
  "project_to_valid half_stream (dimension_checked 2 zero_sdf) [Finite 0] () 1 (Finite 1) 0
      (default_rng 0) =
     Inl (SdfError, (entry [Finite 0] (default_rng 0))
       \<lparr>candidates := [[Finite 0], [Finite 0], [Finite 0], [Finite 0], [Finite 0], [Finite 0],
          [Finite 0], [Finite 0]],
        dists := replicate 8 0,
        trace := [(Baseline 0, [Finite 0])]\<rparr>)
   \<and> project_to_valid half_stream (dimension_checked 2 zero_sdf) [Finite 0] () (- 3) (Finite 1) 0
      (default_rng 0) =
     Inr ((entry [Finite 0] (default_rng 0))\<lparr>candidates :=
       [[Finite 0], [Finite 0], [Finite 0], [Finite 0], [Finite 0], [Finite 0], [Finite 0],
        [Finite 0]]\<rparr>)"
proof -
  have m: "length [Finite 0] \<noteq> 2" by simp
  note d = dimension_mismatch_surfaces_in_oracle [OF m noise_accepted_zero]
  have "project_to_valid half_stream (dimension_checked 2 zero_sdf) [Finite 0] () 1 (Finite 1) 0
      (default_rng 0) =
     Inl (SdfError, (entry [Finite 0] (default_rng 0))
       \<lparr>candidates := [[Finite 0], [Finite 0], [Finite 0], [Finite 0], [Finite 0], [Finite 0],
          [Finite 0], [Finite 0]],
        dists := replicate 8 0,
        trace := [(Baseline 0, [Finite 0])]\<rparr>)"
    using d [THEN conjunct2, THEN conjunct1, of 1 half_stream zero_sdf "()" "Finite 1"
        "default_rng 0"]
    by (simp add: pool_of_zeros n_candidates_def)
  moreover have "project_to_valid half_stream (dimension_checked 2 zero_sdf) [Finite 0] () (- 3)
      (Finite 1) 0 (default_rng 0) =
     Inr ((entry [Finite 0] (default_rng 0))\<lparr>candidates :=
       [[Finite 0], [Finite 0], [Finite 0], [Finite 0], [Finite 0], [Finite 0], [Finite 0],
        [Finite 0]]\<rparr>)"
    using d [THEN conjunct1, of "- 3" half_stream zero_sdf "()" "Finite 1" "default_rng 0"]
    by (simp add: pool_of_zeros)
  ultimately show ?thesis
    by (rule conjI)
qed

text \<open>
  C8. The baseline distances are inert. For every oracle and every input: when
  \<open>project_to_valid\<close> returns a pool, the program without lines 21 to 23 returns the same
  pool and leaves the same gradients in \<open>grads\<close>. With an oracle that never raises the two
  programs agree on every input, in the pool they return (or in returning none, when the
  initializer raises) and in the gradients.
\<close>

theorem baseline_inert:
  "(returned (project_to_valid pcg64 robot q env steps learning_rate noise_scale g) = Some pool \<longrightarrow>
      returned (project_to_valid_no_baseline pcg64 robot q env steps learning_rate noise_scale g)
        = Some pool
    \<and> grads (outcome_state
         (project_to_valid_no_baseline pcg64 robot q env steps learning_rate noise_scale g)) =
      grads (outcome_state (project_to_valid pcg64 robot q env steps learning_rate noise_scale g)))
   \<and> ((\<forall>c. sdf robot c env = Some (f c)) \<longrightarrow>
      returned (project_to_valid pcg64 robot q env steps learning_rate noise_scale g) =
        returned (project_to_valid_no_baseline pcg64 robot q env steps learning_rate noise_scale g)
    \<and> grads (outcome_state (project_to_valid pcg64 robot q env steps learning_rate noise_scale g)) =
      grads (outcome_state
        (project_to_valid_no_baseline pcg64 robot q env steps learning_rate noise_scale g)))"
proof (rule conjI; rule impI)
  assume "returned (project_to_valid pcg64 robot q env steps learning_rate noise_scale g) = Some pool"
  then obtain s' where s': "project_to_valid pcg64 robot q env steps learning_rate noise_scale g
      = Inr s'" "candidates s' = pool"
    by (auto simp: returned_def split: sum.splits)
  from project_to_valid_without_baseline [OF s'(1)] obtain t' where
    t': "project_to_valid_no_baseline pcg64 robot q env steps learning_rate noise_scale g = Inr t'"
      "candidates t' = candidates s'" "grads t' = grads s'"
    by blast
  with s' show "returned (project_to_valid_no_baseline pcg64 robot q env steps learning_rate
      noise_scale g) = Some pool
    \<and> grads (outcome_state
         (project_to_valid_no_baseline pcg64 robot q env steps learning_rate noise_scale g)) =
      grads (outcome_state (project_to_valid pcg64 robot q env steps learning_rate noise_scale g))"
    by (simp add: returned_def outcome_state_def)
next
  assume "\<forall>c. sdf robot c env = Some (f c)"
  then have tot: "\<And>c. sdf robot c env = Some (f c)" by simp
  show "returned (project_to_valid pcg64 robot q env steps learning_rate noise_scale g) =
        returned (project_to_valid_no_baseline pcg64 robot q env steps learning_rate noise_scale g)
    \<and> grads (outcome_state (project_to_valid pcg64 robot q env steps learning_rate noise_scale g)) =
      grads (outcome_state
        (project_to_valid_no_baseline pcg64 robot q env steps learning_rate noise_scale g))"
    by (rule agree_without_baseline_total [OF tot])
qed

theorem baseline_inert_witness:
  "returned (project_to_valid_no_baseline half_stream coordinate_robot [Finite 0] () 1 (Finite 1)
      0 (default_rng 0)) =
     Some [[Finite 1], [Finite 1], [Finite 1], [Finite 1], [Finite 1], [Finite 1], [Finite 1],
       [Finite 1]]
   \<and> grads (outcome_state (project_to_valid half_stream coordinate_robot [Finite 0] () 1
      (Finite 1) 0 (default_rng 0))) =
     grads (outcome_state (project_to_valid_no_baseline half_stream coordinate_robot [Finite 0] ()
      1 (Finite 1) 0 (default_rng 0)))"
proof -
  note b = baseline_inert [of half_stream coordinate_robot "[Finite 0]" "()" 1 "Finite 1" 0
      "default_rng 0"
      "[[Finite 1], [Finite 1], [Finite 1], [Finite 1], [Finite 1], [Finite 1], [Finite 1],
        [Finite 1]]" "\<lambda>c. c ! 0"]
  have "returned (project_to_valid half_stream coordinate_robot [Finite 0] () 1 (Finite 1) 0
      (default_rng 0)) =
     Some [[Finite 1], [Finite 1], [Finite 1], [Finite 1], [Finite 1], [Finite 1], [Finite 1],
       [Finite 1]]"
    using project_to_valid_total [OF coordinate_robot_total noise_accepted_zero,
        of half_stream "[Finite 0]" 1 "Finite 1" "default_rng 0"]
    by (auto simp: returned_def pool_of_zeros coordinate_step)
  with b [THEN conjunct1]
  have "returned (project_to_valid_no_baseline half_stream coordinate_robot [Finite 0] () 1
      (Finite 1) 0 (default_rng 0)) =
     Some [[Finite 1], [Finite 1], [Finite 1], [Finite 1], [Finite 1], [Finite 1], [Finite 1],
       [Finite 1]]"
    by simp
  moreover from b [THEN conjunct2] coordinate_robot_total
  have "grads (outcome_state (project_to_valid half_stream coordinate_robot [Finite 0] () 1
      (Finite 1) 0 (default_rng 0))) =
     grads (outcome_state (project_to_valid_no_baseline half_stream coordinate_robot [Finite 0] ()
      1 (Finite 1) 0 (default_rng 0)))"
    by simp
  ultimately show ?thesis
    by (rule conjI)
qed



text \<open>
  C10. The caller's array. For every oracle and all parameter values, the array \<open>q\<close> of the
  caller holds its original values when the call ends, by return or by raise: the pool is
  the new array that \<^verbatim>\<open>np.tile\<close> made, and every write of the function goes to the pool,
  to \<open>dists\<close> or to \<open>grads\<close>.
\<close>

theorem caller_q_untouched:
  "caller_q (outcome_state (project_to_valid pcg64 robot q env steps learning_rate noise_scale g))
     = q"
  using project_to_valid_ends [of q g pcg64 robot env steps learning_rate noise_scale]
  by (auto simp: ends_def outcome_state_def run_invariant_def split: sum.splits)

theorem caller_q_untouched_witness:
  "caller_q (outcome_state
     (project_to_valid half_stream coordinate_robot [Finite 1, Finite 2, Finite 3] () 4 (Finite 1)
        0 (default_rng 0))) = [Finite 1, Finite 2, Finite 3]"
  by (rule caller_q_untouched [of half_stream coordinate_robot "[Finite 1, Finite 2, Finite 3]" "()"
      4 "Finite 1" 0 "default_rng 0"])

end
